theory Spec2Isabelle
  imports Complex_Main "HOL-Library.List_Lexorder" "HOL-Library.Product_Lexorder"
begin

section \<open>Python values used by the encoder\<close>

text \<open>
  A Python \<open>str\<close> is a sequence of Unicode code points; it is modelled as the list of
  these code points. The Cyrillic capitals A..Ya are U+0410..U+042F (1040..1071), Yo is
  U+0401 (1025), the small letters a..ya are U+0430..U+044F (1072..1103), yo is U+0451.
\<close>

type_synonym ustring = "nat list"

text \<open>The exceptions that the modelled functions can raise.\<close>

datatype py_error = ZeroDivisionError | IndexError

text \<open>Sequencing of a computation that may raise: the first exception is propagated.\<close>

definition and_then :: "py_error + 'a \<Rightarrow> ('a \<Rightarrow> py_error + 'b) \<Rightarrow> py_error + 'b" where
  "and_then m f = (case m of Inl e \<Rightarrow> Inl e | Inr x \<Rightarrow> f x)"

text \<open>The subscript \<open>xs[i]\<close> of a Python list. An index from \<open>-len(xs)\<close> up to \<open>-1\<close>
  reads from the end of the list; beyond both ends the subscript raises IndexError.\<close>

definition py_index :: "'a list \<Rightarrow> int \<Rightarrow> py_error + 'a" where
  "py_index xs i =
     (if 0 \<le> i \<and> i < int (length xs) then Inr (xs ! nat i)
      else if - int (length xs) \<le> i \<and> i < 0 then Inr (xs ! nat (int (length xs) + i))
      else Inl IndexError)"

text \<open>\<open>sep.join(parts)\<close>.\<close>

fun py_join :: "ustring \<Rightarrow> ustring list \<Rightarrow> ustring" where
  "py_join sep [] = []"
| "py_join sep [p] = p"
| "py_join sep (p # q # ps) = p @ sep @ py_join sep (q # ps)"

text \<open>
  \<open>str.isspace\<close> on one character, which is also what \<open>\s\<close> matches in a regular
  expression over \<open>str\<close> and what \<open>str.strip()\<close> removes.
\<close>

definition is_space :: "nat \<Rightarrow> bool" where
  "is_space c \<longleftrightarrow>
     (9 \<le> c \<and> c \<le> 13) \<or> (28 \<le> c \<and> c \<le> 32) \<or> c = 133 \<or> c = 160 \<or> c = 5760
     \<or> (8192 \<le> c \<and> c \<le> 8202) \<or> c = 8232 \<or> c = 8233 \<or> c = 8239 \<or> c = 8287 \<or> c = 12288"

definition py_strip :: "ustring \<Rightarrow> ustring" where
  "py_strip s = rev (dropWhile is_space (rev (dropWhile is_space s)))"

text \<open>
  What \<open>normalize\<close> can see of \<open>str.upper()\<close>. The table covers the ASCII letters, the
  Cyrillic small letters U+0430..U+045F and the seven letters U+1C80..U+1C86; these are all
  the characters that \<open>str.upper()\<close> maps to a letter of the encoder's alphabet. Every other
  character is left as it is here, while \<open>str.upper()\<close> may change it (U+00E9 to U+00C9,
  or one character to several); all those results lie outside the alphabet and the regular
  expression of \<open>normalize\<close> deletes them, so \<open>normalize\<close> built on this function is
  \<open>normalize\<close> built on \<open>str.upper()\<close>. The function is used under \<open>normalize\<close> only;
  where the upper-cased string itself is kept, \<open>str.upper()\<close> is an argument.
\<close>

definition kryon_upper_char :: "nat \<Rightarrow> nat" where
  "kryon_upper_char c =
     (if 97 \<le> c \<and> c \<le> 122 then c - 32
      else if 1072 \<le> c \<and> c \<le> 1103 then c - 32
      else if 1104 \<le> c \<and> c \<le> 1119 then c - 80
      else if c = 7296 then 1042
      else if c = 7297 then 1044
      else if c = 7298 then 1054
      else if c = 7299 then 1057
      else if c = 7300 then 1058
      else if c = 7301 then 1058
      else if c = 7302 then 1066
      else c)"

definition kryon_upper :: "ustring \<Rightarrow> ustring" where
  "kryon_upper s = map kryon_upper_char s"

section \<open>Kryon-33 alphabet and the number speller\<close>

text \<open>\<open>KRYON_MAP\<close>: the 33 capital letters with their weights 1..33 (Yo is 7; the soft
  sign, Yery and the hard sign are 28, 29, 30 in this order).\<close>

definition KRYON_MAP :: "nat \<rightharpoonup> int" where
  "KRYON_MAP = map_of
     [(1040, 1), (1041, 2), (1042, 3), (1043, 4), (1044, 5), (1045, 6), (1025, 7),
      (1046, 8), (1047, 9), (1048, 10), (1049, 11), (1050, 12), (1051, 13), (1052, 14),
      (1053, 15), (1054, 16), (1055, 17), (1056, 18), (1057, 19), (1058, 20), (1059, 21),
      (1060, 22), (1061, 23), (1062, 24), (1063, 25), (1064, 26), (1065, 27), (1068, 28),
      (1067, 29), (1066, 30), (1069, 31), (1070, 32), (1071, 33)]"

text \<open>\<open>KRYON_MAP.get(ch, 0)\<close>.\<close>

definition kryon_get :: "nat \<Rightarrow> int" where
  "kryon_get ch = (case KRYON_MAP ch of None \<Rightarrow> 0 | Some v \<Rightarrow> v)"

text \<open>\<open>sum(KRYON_MAP.get(ch, 0) for ch in s)\<close>, the expression shared by
  \<open>calc_l1_from_string\<close> and \<open>calc_l2c_from_l1\<close>.\<close>

definition kryon_sum :: "ustring \<Rightarrow> int" where
  "kryon_sum s = sum_list (map kryon_get s)"

text \<open>The word tables (STO, DVESTI, ...; DESYAT, DVADTSAT, ...; ODIN, DVA, ...).\<close>

definition HUNDS :: "ustring list" where
  "HUNDS = [[],
   [1057, 1058, 1054],
   [1044, 1042, 1045, 1057, 1058, 1048],
   [1058, 1056, 1048, 1057, 1058, 1040],
   [1063, 1045, 1058, 1067, 1056, 1045, 1057, 1058, 1040],
   [1055, 1071, 1058, 1068, 1057, 1054, 1058],
   [1064, 1045, 1057, 1058, 1068, 1057, 1054, 1058],
   [1057, 1045, 1052, 1068, 1057, 1054, 1058],
   [1042, 1054, 1057, 1045, 1052, 1068, 1057, 1054, 1058],
   [1044, 1045, 1042, 1071, 1058, 1068, 1057, 1054, 1058]]"

definition TENS :: "ustring list" where
  "TENS = [[],
   [1044, 1045, 1057, 1071, 1058, 1068],
   [1044, 1042, 1040, 1044, 1062, 1040, 1058, 1068],
   [1058, 1056, 1048, 1044, 1062, 1040, 1058, 1068],
   [1057, 1054, 1056, 1054, 1050],
   [1055, 1071, 1058, 1068, 1044, 1045, 1057, 1071, 1058],
   [1064, 1045, 1057, 1058, 1068, 1044, 1045, 1057, 1071, 1058],
   [1057, 1045, 1052, 1068, 1044, 1045, 1057, 1071, 1058],
   [1042, 1054, 1057, 1045, 1052, 1068, 1044, 1045, 1057, 1071, 1058],
   [1044, 1045, 1042, 1071, 1053, 1054, 1057, 1058, 1054]]"

definition UNITS :: "ustring list" where
  "UNITS = [[],
   [1054, 1044, 1048, 1053],
   [1044, 1042, 1040],
   [1058, 1056, 1048],
   [1063, 1045, 1058, 1067, 1056, 1045],
   [1055, 1071, 1058, 1068],
   [1064, 1045, 1057, 1058, 1068],
   [1057, 1045, 1052, 1068],
   [1042, 1054, 1057, 1045, 1052, 1068],
   [1044, 1045, 1042, 1071, 1058, 1068]]"

definition UNITS_FEM :: "ustring list" where
  "UNITS_FEM = [[],
   [1054, 1044, 1053, 1040],
   [1044, 1042, 1045],
   [1058, 1056, 1048],
   [1063, 1045, 1058, 1067, 1056, 1045],
   [1055, 1071, 1058, 1068],
   [1064, 1045, 1057, 1058, 1068],
   [1057, 1045, 1052, 1068],
   [1042, 1054, 1057, 1045, 1052, 1068],
   [1044, 1045, 1042, 1071, 1058, 1068]]"

definition TEENS :: "ustring list" where
  "TEENS = [[1044, 1045, 1057, 1071, 1058, 1068],
   [1054, 1044, 1048, 1053, 1053, 1040, 1044, 1062, 1040, 1058, 1068],
   [1044, 1042, 1045, 1053, 1040, 1044, 1062, 1040, 1058, 1068],
   [1058, 1056, 1048, 1053, 1040, 1044, 1062, 1040, 1058, 1068],
   [1063, 1045, 1058, 1067, 1056, 1053, 1040, 1044, 1062, 1040, 1058, 1068],
   [1055, 1071, 1058, 1053, 1040, 1044, 1062, 1040, 1058, 1068],
   [1064, 1045, 1057, 1058, 1053, 1040, 1044, 1062, 1040, 1058, 1068],
   [1057, 1045, 1052, 1053, 1040, 1044, 1062, 1040, 1058, 1068],
   [1042, 1054, 1057, 1045, 1052, 1053, 1040, 1044, 1062, 1040, 1058, 1068],
   [1044, 1045, 1042, 1071, 1058, 1053, 1040, 1044, 1062, 1040, 1058, 1068]]"

text \<open>The literals NOL (zero), TYSYACH, TYSYACHA, TYSYACHI and the blank.\<close>

definition NOL :: ustring where "NOL = [1053, 1054, 1051, 1068]"
definition TYSYACH :: ustring where "TYSYACH = [1058, 1067, 1057, 1071, 1063]"
definition TYSYACHA :: ustring where "TYSYACHA = [1058, 1067, 1057, 1071, 1063, 1040]"
definition TYSYACHI :: ustring where "TYSYACHI = [1058, 1067, 1057, 1071, 1063, 1048]"
definition blank :: ustring where "blank = [32]"

text \<open>\<open>normalize\<close>: upper-case the text and delete every character that is not one of
  the capitals A..Ya or Yo (the regular expression \<open>[^A-YaYo]\<close>).\<close>

definition in_alphabet :: "nat \<Rightarrow> bool" where
  "in_alphabet c \<longleftrightarrow> (1040 \<le> c \<and> c \<le> 1071) \<or> c = 1025"

definition normalize :: "ustring \<Rightarrow> ustring" where
  "normalize t = filter in_alphabet (kryon_upper t)"

text \<open>\<open>_number_to_words_0_999\<close>: the list \<open>out\<close> is built by the three appends of the
  source, each table read being a Python index operation.\<close>

definition number_to_words_0_999 :: "int \<Rightarrow> bool \<Rightarrow> py_error + ustring" where
  "number_to_words_0_999 n feminine =
     (if n = 0 then Inr NOL
      else
        let units_arr = (if feminine then UNITS_FEM else UNITS);
            h = n div 100;
            t = (n mod 100) div 10;
            u = n mod 10
        in and_then (if h \<noteq> 0 then and_then (py_index HUNDS h) (\<lambda>x. Inr [x]) else Inr [])
             (\<lambda>out1.
                and_then
                  (if t = 1 then and_then (py_index TEENS u) (\<lambda>x. Inr (out1 @ [x]))
                   else
                     and_then (if t \<noteq> 0 then and_then (py_index TENS t) (\<lambda>x. Inr (out1 @ [x]))
                               else Inr out1)
                       (\<lambda>out2. if u \<noteq> 0 then and_then (py_index units_arr u) (\<lambda>x. Inr (out2 @ [x]))
                                else Inr out2))
                  (\<lambda>out. Inr (py_join blank out))))"

text \<open>\<open>number_to_words_ru_0_999999\<close>.\<close>

definition number_to_words_ru_0_999999 :: "int \<Rightarrow> py_error + ustring" where
  "number_to_words_ru_0_999999 n =
     (if n = 0 then Inr NOL
      else if n < 1000 then number_to_words_0_999 n False
      else
        let T = n div 1000;
            R = n mod 1000;
            T_mod_100 = T mod 100;
            T_mod_10 = T mod 10;
            thousand_word =
              (if T_mod_100 \<in> {11, 12, 13, 14} then TYSYACH
               else if T_mod_10 = 1 then TYSYACHA
               else if T_mod_10 \<in> {2, 3, 4} then TYSYACHI
               else TYSYACH)
        in and_then (number_to_words_0_999 T True)
             (\<lambda>thousands_str.
                and_then
                  (if R > 0 then and_then (number_to_words_0_999 R False)
                                   (\<lambda>rest_str. Inr [thousands_str, thousand_word, rest_str])
                   else Inr [thousands_str, thousand_word])
                  (\<lambda>parts. Inr (py_join blank parts))))"

text \<open>
  \<open>calc_l2c_from_l1\<close> returns the tuple \<open>(l2c, words, glued, out_of_range)\<close>; outside
  0..999999 the three values are \<open>None\<close> and the flag is \<open>True\<close>. The first regular
  expression deletes white space and hyphens (U+002D).
\<close>

definition calc_l2c_from_l1 ::
  "int \<Rightarrow> py_error + (int option \<times> ustring option \<times> ustring option \<times> bool)" where
  "calc_l2c_from_l1 l1 =
     (if l1 < 0 \<or> l1 > 999999 then Inr (None, None, None, True)
      else and_then (number_to_words_ru_0_999999 l1)
             (\<lambda>words.
                let glued0 = filter (\<lambda>c. \<not> (is_space c \<or> c = 45)) words;
                    glued = normalize glued0;
                    l2c = kryon_sum glued
                in Inr (Some l2c, Some words, Some glued, False)))"

text \<open>\<open>calc_l1_from_string\<close> returns \<open>(None, 0)\<close> when no letter is left.\<close>

definition calc_l1_from_string :: "ustring \<Rightarrow> ustring option \<times> int" where
  "calc_l1_from_string s =
     (let w = normalize s in if w = [] then (None, 0) else (Some w, kryon_sum w))"

section \<open>Metrics\<close>

text \<open>
  The part of \<open>APP_CFG\<close> that the numeric core reads. Python floats are modelled as
  real numbers: every statement below is about exact real arithmetic.
\<close>

record config =
  sigma_Z :: real
  resonator_threshold :: real

definition DEFAULT_CONFIG :: config where
  "DEFAULT_CONFIG = \<lparr>sigma_Z = 0.80, resonator_threshold = 0.75\<rparr>"

text \<open>Python's \<open>a / b\<close>, which raises ZeroDivisionError for a zero divisor.\<close>

definition py_truediv :: "real \<Rightarrow> real \<Rightarrow> py_error + real" where
  "py_truediv a b = (if b = 0 then Inl ZeroDivisionError else Inr (a / b))"

text \<open>\<open>min\<close> over the generator of a non-empty literal list.\<close>

definition py_min :: "real list \<Rightarrow> real" where
  "py_min xs = fold min (tl xs) (hd xs)"

text \<open>
  The three expressions of \<open>metrics\<close>: \<open>C\<close> from the ratio, the clipped \<open>Hm\<close> from \<open>w\<close>
  and the six targets, the clipped \<open>Z\<close> from \<open>C\<close>, \<open>Hm\<close> and \<open>q = (w - 2) / sigma\<close>.
\<close>

definition metric_C :: "real \<Rightarrow> real" where
  "metric_C ratio = (cos (pi / 2 * ratio))\<^sup>2"

definition metric_Hm :: "real \<Rightarrow> real" where
  "metric_Hm w =
     (let targets = [1, 1.25, 1.33, 1.5, 2, 3];
          Hm_raw = 1 - py_min (map (\<lambda>t. \<bar>w - t\<bar> / t) targets)
      in max 0 (min 1 Hm_raw))"

definition metric_Z :: "real \<Rightarrow> real \<Rightarrow> real \<Rightarrow> real" where
  "metric_Z C Hm q =
     (let Z_raw = (C * Hm) * exp (- (q\<^sup>2))
      in max 0 (min 1 Z_raw))"

text \<open>\<open>metrics(l1, l2c)\<close> returns \<open>(w, C, Hm, Z)\<close>; \<open>sigma\<close> is read from the
  configuration. The three divisions are those of the source, in its order: \<open>l2c / l1\<close>,
  the ratio, and the division by \<open>sigma\<close>.\<close>

definition metrics :: "config \<Rightarrow> int \<Rightarrow> int \<Rightarrow> py_error + (real \<times> real \<times> real \<times> real)" where
  "metrics cfg l1 l2c =
     and_then (py_truediv (real_of_int l2c) (real_of_int l1))
       (\<lambda>w. and_then (py_truediv (real_of_int \<bar>l2c - l1\<bar>) (real_of_int (l2c + l1)))
         (\<lambda>ratio.
            let C = metric_C ratio;
                Hm = metric_Hm w;
                sigma = sigma_Z cfg
            in and_then (py_truediv (w - 2) sigma)
                 (\<lambda>q. Inr (w, C, Hm, metric_Z C Hm q))))"

section \<open>Classification\<close>

definition s_phi :: ustring where "s_phi = [112, 104, 105]"
definition s_e :: ustring where "s_e = [101]"
definition s_e_pi :: ustring where "s_e_pi = [101, 45, 112, 105]"
definition s_pi :: ustring where "s_pi = [112, 105]"
definition s_rt2 :: ustring where "s_rt2 = [114, 116, 50]"

text \<open>The display names: phi-yadro, e, e-pi (with an en dash), pi (Greek letters).\<close>

definition ru_phi :: ustring where "ru_phi = [966, 45, 1103, 1076, 1088, 1086]"
definition ru_e :: ustring where "ru_e = [101]"
definition ru_e_pi :: ustring where "ru_e_pi = [101, 8211, 960]"
definition ru_pi :: ustring where "ru_pi = [960]"

definition cluster_by_w :: "real \<Rightarrow> ustring \<times> ustring" where
  "cluster_by_w w =
     (if 1.0 \<le> w \<and> w < 1.6 then (s_phi, ru_phi)
      else if 1.6 \<le> w \<and> w < 2.7 then (s_e, ru_e)
      else if 2.7 \<le> w \<and> w < 3.2 then (s_e_pi, ru_e_pi)
      else (s_pi, ru_pi))"

definition clusters_from_w :: "real \<Rightarrow> ustring" where
  "clusters_from_w w =
     (if 1.214 \<le> w \<and> w \<le> 1.614 then s_rt2
      else if 1.0 \<le> w \<and> w < 1.6 then s_phi
      else if 1.6 \<le> w \<and> w < 2.7 then s_e
      else if 2.7 \<le> w \<and> w < 3.2 then s_e_pi
      else if w \<ge> 3.2 then s_pi
      else s_phi)"

section \<open>Fractal unfolding\<close>

text \<open>A float that may be \<open>float('inf')\<close>.\<close>

datatype py_float = Fin real | PosInf

definition float_gt :: "py_float \<Rightarrow> real \<Rightarrow> bool" where
  "float_gt x b = (case x of Fin a \<Rightarrow> a > b | PosInf \<Rightarrow> True)"

definition float_lt :: "py_float \<Rightarrow> real \<Rightarrow> bool" where
  "float_lt x b = (case x of Fin a \<Rightarrow> a < b | PosInf \<Rightarrow> False)"

text \<open>
  The first loop of \<open>fractal_unfold\<close>, \<open>for _ in range(12)\<close>: the first argument counts
  the iterations that remain, \<open>break\<close> returns the values collected so far, and an
  exception of \<open>metrics\<close> leaves the function.
\<close>

fun unfold_loop :: "config \<Rightarrow> nat \<Rightarrow> int \<Rightarrow> real list \<Rightarrow> py_error + real list" where
  "unfold_loop cfg 0 curr_l1 w_values = Inr w_values"
| "unfold_loop cfg (Suc k) curr_l1 w_values =
     and_then (calc_l2c_from_l1 curr_l1)
       (\<lambda>(l2c_opt, words, glued, out_of_range).
          case l2c_opt of
            None \<Rightarrow> Inr w_values
          | Some l2c \<Rightarrow>
              if out_of_range then Inr w_values
              else and_then (metrics cfg curr_l1 l2c)
                     (\<lambda>(w, C, Hm, Z). unfold_loop cfg k l2c (w_values @ [w])))"

definition fractal_w_values :: "config \<Rightarrow> int \<Rightarrow> py_error + real list" where
  "fractal_w_values cfg l1 = unfold_loop cfg 12 l1 []"

text \<open>The second loop: one mark for each pair of neighbours, the filled circle (U+25CF)
  when the value grew, the empty one (U+25CB) otherwise.\<close>

fun breath_loop :: "real list \<Rightarrow> ustring \<Rightarrow> int \<Rightarrow> int \<Rightarrow> ustring \<times> int \<times> int" where
  "breath_loop (a # b # rest) pattern_chars inhale exhale =
     (if b > a then breath_loop (b # rest) (pattern_chars @ [9679]) (inhale + 1) exhale
      else breath_loop (b # rest) (pattern_chars @ [9675]) inhale (exhale + 1))"
| "breath_loop ws pattern_chars inhale exhale = (pattern_chars, inhale, exhale)"

text \<open>The three interpretations and the two sentinel strings (the dash U+2014 and
  "out_of_range").\<close>

definition interp_unfolds :: ustring where
  "interp_unfolds = [1089, 1083, 1086, 1074, 1086, 32, 1088, 1072, 1089, 1082, 1088, 1099,
     1074, 1072, 1077, 1090, 1089, 1103]"

definition interp_stabilizes :: ustring where
  "interp_stabilizes = [1089, 1083, 1086, 1074, 1086, 32, 1089, 1090, 1072, 1073, 1080, 1083,
     1080, 1079, 1080, 1088, 1091, 1077, 1090, 32, 1087, 1086, 1083, 1077]"

definition interp_equilibrium :: ustring where
  "interp_equilibrium = [1089, 1083, 1086, 1074, 1086, 32, 1074, 32, 1088, 1072, 1074, 1085,
     1086, 1074, 1077, 1089, 1080, 1080]"

definition s_out_of_range :: ustring where
  "s_out_of_range = [111, 117, 116, 95, 111, 102, 95, 114, 97, 110, 103, 101]"

definition fractal_unfold ::
  "config \<Rightarrow> int \<Rightarrow> py_error + (ustring \<times> int \<times> int \<times> py_float \<times> ustring)" where
  "fractal_unfold cfg l1 =
     and_then (fractal_w_values cfg l1)
       (\<lambda>w_values.
          if w_values = [] then Inr ([8212], 0, 0, Fin 0.0, s_out_of_range)
          else
            case breath_loop w_values [] 0 0 of
              (chars, inhale, exhale) \<Rightarrow>
                let pattern_chars = chars @ [8594];
                    R = (if exhale = 0 then (if inhale > 0 then PosInf else Fin 1.0)
                         else Fin (real_of_int inhale / real_of_int exhale));
                    interp = (if float_gt R 1.05 then interp_unfolds
                              else if float_lt R 0.95 then interp_stabilizes
                              else interp_equilibrium)
                in Inr (pattern_chars, inhale, exhale, R, interp))"

section \<open>Composite index and its categories\<close>

text \<open>Python's \<open>round(x)\<close> for one argument: to the nearest integer, a tie to the even
  neighbour.\<close>

definition py_round :: "real \<Rightarrow> int" where
  "py_round x =
     (let f = \<lfloor>x\<rfloor>; d = x - of_int f
      in if d < 1/2 then f else if d > 1/2 then f + 1 else if even f then f else f + 1)"

text \<open>The five category strings of \<open>fii_bar\<close>: a coloured mark, the name (Razrushitel,
  Oslabitel, Neytralnoe, Garmonizator, Rezonator), a dash and the description.\<close>

definition cat_destroyer :: ustring where
  "cat_destroyer = [128308, 32, 1056, 1072, 1079, 1088, 1091, 1096, 1080, 1090, 1077, 1083,
     1100, 32, 8212, 32, 1089, 1086, 1079, 1076, 1072, 1105, 1090, 32, 1085, 1072, 1087,
     1088, 1103, 1078, 1077, 1085, 1080, 1077, 44, 32, 1076, 1077, 1089, 1090, 1072, 1073,
     1080, 1083, 1080, 1079, 1080, 1088, 1091, 1077, 1090, 32, 1087, 1086, 1083, 1077]"

definition cat_dissipator :: ustring where
  "cat_dissipator = [128992, 32, 1054, 1089, 1083, 1072, 1073, 1080, 1090, 1077, 1083, 1100,
     32, 8212, 32, 1088, 1072, 1089, 1089, 1077, 1080, 1074, 1072, 1077, 1090, 32, 1101,
     1085, 1077, 1088, 1075, 1080, 1102, 44, 32, 1089, 1085, 1080, 1078, 1072, 1077, 1090,
     32, 1092, 1086, 1082, 1091, 1089]"

definition cat_neutral :: ustring where
  "cat_neutral = [9898, 32, 1053, 1077, 1081, 1090, 1088, 1072, 1083, 1100, 1085, 1086,
     1077, 32, 8212, 32, 1089, 1073, 1072, 1083, 1072, 1085, 1089, 1080, 1088, 1086, 1074,
     1072, 1085, 1085, 1086, 1077, 44, 32, 1085, 1077, 32, 1074, 1083, 1080, 1103, 1077,
     1090, 32, 1079, 1072, 1084, 1077, 1090, 1085, 1086]"

definition cat_harmonizer :: ustring where
  "cat_harmonizer = [128994, 32, 1043, 1072, 1088, 1084, 1086, 1085, 1080, 1079, 1072, 1090,
     1086, 1088, 32, 8212, 32, 1091, 1089, 1080, 1083, 1080, 1074, 1072, 1077, 1090, 32,
     1075, 1072, 1088, 1084, 1086, 1085, 1080, 1102, 32, 1080, 32, 1089, 1086, 1075, 1083,
     1072, 1089, 1080, 1077]"

definition cat_resonator :: ustring where
  "cat_resonator = [128309, 32, 1056, 1077, 1079, 1086, 1085, 1072, 1090, 1086, 1088, 32,
     8212, 32, 1084, 1072, 1082, 1089, 1080, 1084, 1072, 1083, 1100, 1085, 1086, 32, 1091,
     1089, 1080, 1083, 1080, 1074, 1072, 1077, 1090, 32, 1087, 1086, 1083, 1077, 44, 32,
     1089, 1074, 1077, 1090, 1086, 1074, 1086, 1081, 32, 1087, 1080, 1082]"

text \<open>\<open>fii_bar(fii)\<close> returns the bar of ten marks (U+25B0 filled, U+25B1 empty) and the
  category.\<close>

definition fii_bar :: "real \<Rightarrow> ustring \<times> ustring" where
  "fii_bar fii =
     (let segments = max 0 (min 10 (py_round ((fii + 10) / 2)));
          bar = replicate (nat segments) 9648 @ replicate (nat (10 - segments)) 9649;
          cat = (if fii \<le> -6 then cat_destroyer
                 else if fii \<le> -2 then cat_dissipator
                 else if fii < 2 then cat_neutral
                 else if fii < 6 then cat_harmonizer
                 else cat_resonator)
      in (bar, cat))"

text \<open>
  The result of \<open>analyze_word\<close>: the keys of the returned dictionary that depend on the
  metrics, the composite scores, the cluster, the fractal pattern and the FII bar. The other
  keys (resonance pair, first-letter class, the echoed input) are computed from \<open>w\<close> and
  \<open>norm\<close> by functions that cannot fail and are left out. \<open>None\<close> is the empty
  dictionary.
\<close>

record analysis =
  a_norm :: ustring
  a_l1 :: int
  a_l2c :: int
  a_w :: real
  a_C :: real
  a_Hm :: real
  a_Z :: real
  a_q_total :: real
  a_fii :: real
  a_cluster_code :: ustring
  a_fractal :: "ustring \<times> int \<times> int \<times> py_float \<times> ustring"
  a_fii_bar :: ustring
  a_fii_category :: ustring

text \<open>\<open>analyze_word\<close>; the date recogniser \<open>parse_date_phrase\<close> is an argument (it
  yields the phrase for a well-formed date and \<open>None\<close> otherwise).\<close>

definition analyze_word ::
  "config \<Rightarrow> (ustring \<Rightarrow> ustring option) \<Rightarrow> ustring \<Rightarrow> py_error + analysis option" where
  "analyze_word cfg parse_date_phrase raw_input =
     (let src = (case parse_date_phrase raw_input of
                   None \<Rightarrow> raw_input
                 | Some phrase \<Rightarrow> if phrase = [] then raw_input else phrase)
      in case calc_l1_from_string src of
           (norm_opt, l1) \<Rightarrow>
             if l1 = 0 then Inr None
             else and_then (calc_l2c_from_l1 l1)
               (\<lambda>(l2c_opt, words, glued, out_of_range).
                  case l2c_opt of
                    None \<Rightarrow> Inr None
                  | Some l2c \<Rightarrow>
                      if out_of_range then Inr None
                      else and_then (metrics cfg l1 l2c)
                        (\<lambda>(w, C, Hm, Z).
                           let q_total = (Z + C + Hm) / 3.0;
                               fii = 10 * (0.4 * Z + 0.3 * q_total + 0.2 * C + 0.1 * Hm - 0.5);
                               cluster = cluster_by_w w
                           in and_then (fractal_unfold cfg l1)
                                (\<lambda>fr. case fii_bar fii of
                                   (fii_b, fii_cat) \<Rightarrow>
                                     Inr (Some \<lparr>a_norm = (case norm_opt of None \<Rightarrow> [] | Some n \<Rightarrow> n),
                                                a_l1 = l1, a_l2c = l2c, a_w = w, a_C = C,
                                                a_Hm = Hm, a_Z = Z, a_q_total = q_total,
                                                a_fii = fii, a_cluster_code = fst cluster,
                                                a_fractal = fr, a_fii_bar = fii_b,
                                                a_fii_category = fii_cat\<rparr>)))))"

section \<open>Library rows\<close>

text \<open>
  A cell of a text column of the library frame (\<open>word\<close>, \<open>sphere\<close>, \<open>tone\<close>, \<open>field\<close>,
  \<open>role\<close>, \<open>notes\<close>) holds a string or is missing, as \<open>NaN\<close> or as \<open>None\<close>. A cell of
  the \<open>allowed\<close> column or of a numeric column holds \<open>None\<close>, \<open>NaN\<close>, a bool, an int, a
  finite float or a string. An int stored in a numeric cell is taken to be exactly
  representable as a float (below \<open>2^53\<close> in absolute value), as every code of the encoder is.
\<close>

datatype text_cell = Text ustring | TNaN | TNone

datatype pyval = PNone | PNaN | PBool bool | PInt int | PFloat real | PStr ustring

record row =
  row_word :: text_cell
  row_sphere :: text_cell
  row_tone :: text_cell
  row_allowed :: pyval
  row_field :: text_cell
  row_role :: text_cell
  row_notes :: text_cell
  row_l1 :: pyval
  row_l2c :: pyval
  row_w :: pyval
  row_C :: pyval
  row_Hm :: pyval
  row_Z :: pyval

text \<open>\<open>pd.isna(x)\<close> and \<open>str(x)\<close> on a text cell.\<close>

definition text_isna :: "text_cell \<Rightarrow> bool" where
  "text_isna x = (case x of Text s \<Rightarrow> False | TNaN \<Rightarrow> True | TNone \<Rightarrow> True)"

definition text_str :: "text_cell \<Rightarrow> ustring" where
  "text_str x = (case x of Text s \<Rightarrow> s | TNaN \<Rightarrow> [110, 97, 110] | TNone \<Rightarrow> [78, 111, 110, 101])"

text \<open>
  \<open>str.lower()\<close>, character by character, for the ASCII and the Cyrillic capitals; these
  are all the characters whose lower-case form occurs in the literals compared with
  (\<open>"nan"\<close>, \<open>"true"\<close>, \<open>"1"\<close>, \<open>"yes"\<close>, \<open>"y"\<close>, \<open>"da"\<close> in Cyrillic).
\<close>

definition lower_char :: "nat \<Rightarrow> nat" where
  "lower_char c =
     (if 65 \<le> c \<and> c \<le> 90 then c + 32
      else if 1040 \<le> c \<and> c \<le> 1071 then c + 32
      else if 1024 \<le> c \<and> c \<le> 1039 then c + 80
      else c)"

definition py_lower :: "ustring \<Rightarrow> ustring" where
  "py_lower s = map lower_char s"

text \<open>\<open>parse_bool\<close>. A bool is returned as it is, a number is true when it is not zero
  (\<open>NaN\<close> is not zero), \<open>None\<close> is false, a string is true when it is one of the five
  literals after \<open>strip().lower()\<close>.\<close>

definition parse_bool :: "pyval \<Rightarrow> bool" where
  "parse_bool x =
     (case x of
        PBool b \<Rightarrow> b
      | PInt n \<Rightarrow> n \<noteq> 0
      | PFloat r \<Rightarrow> r \<noteq> 0
      | PNaN \<Rightarrow> True
      | PNone \<Rightarrow> False
      | PStr s \<Rightarrow> py_lower (py_strip s) \<in> set [[116, 114, 117, 101], [49], [121, 101, 115],
                                               [121], [1076, 1072]])"

text \<open>The defaults "prochee" (other) and "neutral", the string "nan" and the separator.\<close>

definition s_prochee :: ustring where "s_prochee = [1087, 1088, 1086, 1095, 1077, 1077]"
definition s_neutral :: ustring where "s_neutral = [110, 101, 117, 116, 114, 97, 108]"
definition s_nan :: ustring where "s_nan = [110, 97, 110]"
definition notes_sep :: ustring where "notes_sep = [32, 124, 32]"

text \<open>
  \<open>force_recalc_row\<close>. The arguments \<open>l1\<close>, \<open>l2c\<close>, \<open>field\<close> and \<open>role\<close> are optional
  (\<open>None\<close> by default); \<open>notes\<close> is a text cell. In the out-of-range branch the row keeps
  \<open>allowed\<close> as passed and \<open>notes or ""\<close>, and its six numeric cells are \<open>None\<close>.
\<close>

definition force_recalc_row ::
  "config \<Rightarrow> ustring \<Rightarrow> ustring \<Rightarrow> ustring \<Rightarrow> pyval \<Rightarrow> text_cell \<Rightarrow> int option \<Rightarrow> int option \<Rightarrow>
   ustring option \<Rightarrow> ustring option \<Rightarrow> py_error + row" where
  "force_recalc_row cfg word sphere tone allowed notes l1_arg l2c_arg field role =
     (let l1 = (case l1_arg of None \<Rightarrow> snd (calc_l1_from_string word) | Some v \<Rightarrow> v);
          minimal = \<lparr>row_word = Text word, row_sphere = Text sphere, row_tone = Text tone,
                     row_allowed = allowed,
                     row_field = Text (case field of None \<Rightarrow> [] | Some f \<Rightarrow> f),
                     row_role = Text (case role of None \<Rightarrow> [] | Some f \<Rightarrow> f),
                     row_notes = (case notes of TNone \<Rightarrow> Text []
                                  | Text s \<Rightarrow> Text s
                                  | TNaN \<Rightarrow> TNaN),
                     row_l1 = PNone, row_l2c = PNone, row_w = PNone, row_C = PNone,
                     row_Hm = PNone, row_Z = PNone\<rparr>;
          finish = (\<lambda>l2c.
            and_then (metrics cfg l1 l2c)
              (\<lambda>(w, C, Hm, Z).
                 let notes_str0 = (case notes of TNone \<Rightarrow> [] | _ \<Rightarrow> py_strip (text_str notes));
                     notes_str = (if py_lower notes_str0 = s_nan then [] else notes_str0)
                 in Inr \<lparr>row_word = Text word, row_sphere = Text sphere, row_tone = Text tone,
                         row_allowed = PBool (parse_bool allowed),
                         row_field = Text (py_strip (case field of None \<Rightarrow> [] | Some f \<Rightarrow> f)),
                         row_role = Text (py_strip (case role of None \<Rightarrow> [] | Some f \<Rightarrow> f)),
                         row_notes = Text notes_str,
                         row_l1 = PInt l1, row_l2c = PInt l2c, row_w = PFloat w,
                         row_C = PFloat C, row_Hm = PFloat Hm, row_Z = PFloat Z\<rparr>))
      in case l2c_arg of
           Some l2c \<Rightarrow> finish l2c
         | None \<Rightarrow>
             and_then (calc_l2c_from_l1 l1)
               (\<lambda>(l2c_opt, words, glued, out_of_range).
                  case l2c_opt of
                    None \<Rightarrow> Inr minimal
                  | Some l2c \<Rightarrow> if out_of_range then Inr minimal else finish l2c))"

section \<open>Deduplication\<close>

text \<open>The two local helpers of \<open>soft_dedup\<close>.\<close>

definition cell_stripped :: "text_cell \<Rightarrow> ustring" where
  "cell_stripped x = (if text_isna x then [] else py_strip (text_str x))"

fun uniq_notes_loop :: "text_cell list \<Rightarrow> ustring list \<Rightarrow> ustring list" where
  "uniq_notes_loop [] out = out"
| "uniq_notes_loop (x # series) out =
     (let s = cell_stripped x
      in if s \<noteq> [] \<and> s \<notin> set out then uniq_notes_loop series (out @ [s])
         else uniq_notes_loop series out)"

definition uniq_notes :: "text_cell list \<Rightarrow> ustring \<Rightarrow> ustring" where
  "uniq_notes series sep = py_join sep (uniq_notes_loop series [])"

fun pick_first_nonempty :: "text_cell list \<Rightarrow> ustring" where
  "pick_first_nonempty [] = []"
| "pick_first_nonempty (x # series) =
     (let s = cell_stripped x in if s \<noteq> [] then s else pick_first_nonempty series)"

text \<open>
  \<open>df.groupby(["word", "sphere", "tone"])\<close>: a row with a missing key cell belongs to no
  group; the groups come in ascending order of the key triple (strings compare by code
  points, as lists do in the lexicographic order), and each group keeps the order of its
  rows in the frame.
\<close>

type_synonym dedup_key = "ustring \<times> ustring \<times> ustring"

definition row_key :: "row \<Rightarrow> dedup_key option" where
  "row_key r =
     (case row_word r of
        Text a \<Rightarrow> (case row_sphere r of
                     Text b \<Rightarrow> (case row_tone r of Text c \<Rightarrow> Some (a, b, c) | _ \<Rightarrow> None)
                   | _ \<Rightarrow> None)
      | _ \<Rightarrow> None)"

definition groupby :: "row list \<Rightarrow> (dedup_key \<times> row list) list" where
  "groupby df =
     map (\<lambda>k. (k, filter (\<lambda>r. row_key r = Some k) df))
         (sort (remdups (List.map_filter row_key df)))"

text \<open>The body of the loop over the groups: \<open>None\<close> is \<open>continue\<close>. The
  \<open>upper()\<close> of the word is passed straight to \<open>normalize\<close>, which keeps the letters of
  the alphabet only.\<close>

definition dedup_group :: "config \<Rightarrow> dedup_key \<Rightarrow> row list \<Rightarrow> py_error + row option" where
  "dedup_group cfg key grp =
     (case key of
        (word, sphere, tone) \<Rightarrow>
          let word_norm = (if word \<noteq> [] then normalize (kryon_upper (py_strip word)) else [])
          in if word_norm = [] then Inr None
             else
               let allowed_vals = map (\<lambda>r. parse_bool (row_allowed r)) grp;
                   allowed = (True \<in> set allowed_vals);
                   field = pick_first_nonempty (map row_field grp);
                   role = pick_first_nonempty (map row_role grp);
                   notes = uniq_notes (map row_notes grp) notes_sep
               in and_then
                    (force_recalc_row cfg word_norm
                       (if sphere \<noteq> [] then py_strip sphere else s_prochee)
                       (if tone \<noteq> [] then py_strip tone else s_neutral)
                       (PBool allowed) (Text notes) None None
                       (if field \<noteq> [] then Some field else None)
                       (if role \<noteq> [] then Some role else None))
                    (\<lambda>row. Inr (Some row)))"

fun dedup_loop :: "config \<Rightarrow> (dedup_key \<times> row list) list \<Rightarrow> row list \<Rightarrow> py_error + row list" where
  "dedup_loop cfg [] deduped_rows = Inr deduped_rows"
| "dedup_loop cfg ((key, grp) # rest) deduped_rows =
     and_then (dedup_group cfg key grp)
       (\<lambda>res. case res of
                 None \<Rightarrow> dedup_loop cfg rest deduped_rows
               | Some row \<Rightarrow> dedup_loop cfg rest (deduped_rows @ [row]))"

text \<open>\<open>soft_dedup\<close>: a frame is the list of its rows (the thirteen columns of
  \<open>LIB_COLS\<close> are the fields of a row); the empty frame is returned as it is.\<close>

definition soft_dedup :: "config \<Rightarrow> row list \<Rightarrow> py_error + row list" where
  "soft_dedup cfg df = (if df = [] then Inr df else dedup_loop cfg (groupby df) [])"

section \<open>Library index\<close>

text \<open>
  The globals \<open>INDEX_L1\<close>, \<open>INDEX_L2C\<close> (dictionaries from a code to the list of words)
  and \<open>INDEX_READY\<close>.
\<close>

record index_state =
  INDEX_L1 :: "int \<rightharpoonup> ustring list"
  INDEX_L2C :: "int \<rightharpoonup> ustring list"
  INDEX_READY :: bool

text \<open>
  The index stores \<open>str(word).upper()\<close> as it is, so Python's \<open>str.upper()\<close> on
  arbitrary text is the argument \<open>str_upper\<close> of the functions below.
\<close>

text \<open>
  \<open>int(float(v))\<close> on a numeric cell; \<open>None\<close> stands for the exception that the
  source catches. The conversion of a string is the argument \<open>str_to_int\<close> (Python's
  parser of float literals followed by the truncation). A float is truncated towards zero.
\<close>

definition int_of_float :: "(ustring \<Rightarrow> int option) \<Rightarrow> pyval \<Rightarrow> int option" where
  "int_of_float str_to_int v =
     (case v of
        PNone \<Rightarrow> None
      | PNaN \<Rightarrow> None
      | PBool b \<Rightarrow> Some (if b then 1 else 0)
      | PInt n \<Rightarrow> Some n
      | PFloat x \<Rightarrow> Some (if x \<ge> 0 then \<lfloor>x\<rfloor> else \<lceil>x\<rceil>)
      | PStr s \<Rightarrow> str_to_int s)"

text \<open>The guarded block of one axis: a missing cell and a failed conversion both leave
  the dictionary as it is.\<close>

definition index_add :: "(int \<rightharpoonup> ustring list) \<Rightarrow> int \<Rightarrow> ustring \<Rightarrow> (int \<rightharpoonup> ustring list)" where
  "index_add idx code word =
     (let idx1 = (if code \<notin> dom idx then idx(code \<mapsto> []) else idx);
          cur = (case idx1 code of None \<Rightarrow> [] | Some ws \<Rightarrow> ws)
      in if word \<notin> set cur then idx1(code \<mapsto> cur @ [word]) else idx1)"

definition index_cell ::
  "(ustring \<Rightarrow> int option) \<Rightarrow> (int \<rightharpoonup> ustring list) \<Rightarrow> pyval \<Rightarrow> ustring \<Rightarrow> (int \<rightharpoonup> ustring list)" where
  "index_cell str_to_int idx v word =
     (if v \<noteq> PNone \<and> v \<noteq> PNaN
      then (case int_of_float str_to_int v of None \<Rightarrow> idx | Some code \<Rightarrow> index_add idx code word)
      else idx)"

fun index_rows ::
  "(ustring \<Rightarrow> ustring) \<Rightarrow> (ustring \<Rightarrow> int option) \<Rightarrow> row list \<Rightarrow> index_state \<Rightarrow> index_state" where
  "index_rows str_upper str_to_int [] st = st"
| "index_rows str_upper str_to_int (r # rest) st =
     (let word = str_upper (text_str (row_word r))
      in if word = [] then index_rows str_upper str_to_int rest st
         else index_rows str_upper str_to_int rest
                (st\<lparr>INDEX_L1 := index_cell str_to_int (INDEX_L1 st) (row_l1 r) word,
                    INDEX_L2C := index_cell str_to_int (INDEX_L2C st) (row_l2c r) word\<rparr>))"

text \<open>\<open>rebuild_indexes\<close>: both dictionaries are cleared first, whatever they held.\<close>

definition rebuild_indexes ::
  "(ustring \<Rightarrow> ustring) \<Rightarrow> (ustring \<Rightarrow> int option) \<Rightarrow> row list \<Rightarrow> index_state \<Rightarrow> index_state" where
  "rebuild_indexes str_upper str_to_int df st =
     (let cleared = st\<lparr>INDEX_L1 := Map.empty, INDEX_L2C := Map.empty\<rparr>
      in if df = [] then cleared\<lparr>INDEX_READY := False\<rparr>
         else (index_rows str_upper str_to_int df cleared)\<lparr>INDEX_READY := True\<rparr>)"

section \<open>Notions used in the proofs\<close>

text \<open>A spelled text consists of letters of the alphabet and blanks; a table word is a
  non-empty spelled text whose letter sum lies between 1 and the bound.\<close>

definition spelled :: "ustring \<Rightarrow> bool" where
  "spelled s = list_all (\<lambda>c. in_alphabet c \<or> c = 32) s"

definition table_word :: "int \<Rightarrow> ustring \<Rightarrow> bool" where
  "table_word B w \<longleftrightarrow> spelled w \<and> 1 \<le> kryon_sum w \<and> kryon_sum w \<le> B"

text \<open>Reading the dictionary at a code, as the lookup does (\<open>if l1 in INDEX_L1\<close>, then
  \<open>INDEX_L1[l1]\<close>): a code without an entry has no words.\<close>

definition index_lookup :: "(int \<rightharpoonup> ustring list) \<Rightarrow> int \<Rightarrow> ustring list" where
  "index_lookup idx code = (case idx code of None \<Rightarrow> [] | Some ws \<Rightarrow> ws)"

text \<open>
  The encoding pipeline run on a word alone, as the specification words it:
  \<open>calc_l1_from_string\<close>, then \<open>calc_l2c_from_l1\<close>, then \<open>metrics\<close>. The result is the
  six derived cells; when the code of the word is out of range there are no values and
  the six cells are \<open>None\<close>.
\<close>

definition pipeline_on_word ::
  "config \<Rightarrow> ustring \<Rightarrow> py_error + (pyval \<times> pyval \<times> pyval \<times> pyval \<times> pyval \<times> pyval)" where
  "pipeline_on_word cfg word =
     (case calc_l1_from_string word of
        (normalized, l1) \<Rightarrow>
          and_then (calc_l2c_from_l1 l1)
            (\<lambda>(l2c_opt, words, glued, out_of_range).
               case l2c_opt of
                 None \<Rightarrow> Inr (PNone, PNone, PNone, PNone, PNone, PNone)
               | Some l2c \<Rightarrow>
                   if out_of_range then Inr (PNone, PNone, PNone, PNone, PNone, PNone)
                   else and_then (metrics cfg l1 l2c)
                          (\<lambda>(w, C, Hm, Z).
                             Inr (PInt l1, PInt l2c, PFloat w, PFloat C, PFloat Hm, PFloat Z))))"

text \<open>The six derived cells of a row, and a row with these cells blanked.\<close>

definition derived_cells :: "row \<Rightarrow> pyval \<times> pyval \<times> pyval \<times> pyval \<times> pyval \<times> pyval" where
  "derived_cells r = (row_l1 r, row_l2c r, row_w r, row_C r, row_Hm r, row_Z r)"

definition clear_derived :: "row \<Rightarrow> row" where
  "clear_derived r = r\<lparr>row_l1 := PNone, row_l2c := PNone, row_w := PNone, row_C := PNone,
                       row_Hm := PNone, row_Z := PNone\<rparr>"

text \<open>
  A frame of two rows for the deduplication: the words SVET and "SVET-" (the same letters
  followed by a hyphen), both in the sphere "priroda" with the tone "neutral", allowed, with
  empty field, role and notes and no stored numbers.
\<close>

definition s_svet :: ustring where "s_svet = [1057, 1042, 1045, 1058]"
definition s_svet_hyphen :: ustring where "s_svet_hyphen = [1057, 1042, 1045, 1058, 45]"
definition s_priroda :: ustring where "s_priroda = [1087, 1088, 1080, 1088, 1086, 1076, 1072]"

definition library_row :: "ustring \<Rightarrow> row" where
  "library_row word =
     \<lparr>row_word = Text word, row_sphere = Text s_priroda, row_tone = Text s_neutral,
      row_allowed = PBool True, row_field = Text [], row_role = Text [], row_notes = Text [],
      row_l1 = PNone, row_l2c = PNone, row_w = PNone, row_C = PNone, row_Hm = PNone,
      row_Z = PNone\<rparr>"

definition two_spellings :: "row list" where
  "two_spellings = [library_row s_svet, library_row s_svet_hyphen]"

section \<open>The number speller stays within its tables\<close>

lemma kryon_sum_append: "kryon_sum (a @ b) = kryon_sum a + kryon_sum b"
  by (simp add: kryon_sum_def)

lemma kryon_get_outside: "\<not> in_alphabet c \<Longrightarrow> kryon_get c = 0"
  by (auto simp: kryon_get_def KRYON_MAP_def in_alphabet_def)

lemma kryon_get_range: "0 \<le> kryon_get c \<and> kryon_get c \<le> 33"
  by (auto simp: kryon_get_def KRYON_MAP_def)

lemma blank_facts: "is_space 32" "\<not> in_alphabet 32" "kryon_get 32 = 0"
  by (simp_all add: is_space_def in_alphabet_def kryon_get_def KRYON_MAP_def)

lemma kryon_upper_char_alphabet: "in_alphabet c \<Longrightarrow> kryon_upper_char c = c"
  by (auto simp: in_alphabet_def kryon_upper_char_def)

lemma not_space_alphabet: "in_alphabet c \<Longrightarrow> \<not> is_space c \<and> c \<noteq> 45"
  by (auto simp: in_alphabet_def is_space_def)

lemma normalize_glue:
  "spelled s \<Longrightarrow> normalize (filter (\<lambda>c. \<not> is_space c \<and> c \<noteq> 45) s) = filter in_alphabet s"
proof (induction s)
  case Nil
  show ?case by (simp add: normalize_def kryon_upper_def)
next
  case (Cons c s)
  then have IH: "normalize (filter (\<lambda>c. \<not> is_space c \<and> c \<noteq> 45) s) = filter in_alphabet s"
    by (simp add: spelled_def)
  from Cons.prems have "in_alphabet c \<or> c = 32" by (simp add: spelled_def)
  then show ?case
  proof
    assume a: "in_alphabet c"
    with IH show ?thesis
      using kryon_upper_char_alphabet[OF a] not_space_alphabet[OF a]
      by (simp add: normalize_def kryon_upper_def)
  next
    assume "c = 32"
    with IH show ?thesis
      by (simp add: blank_facts)
  qed
qed

lemma kryon_sum_filter: "kryon_sum (filter in_alphabet s) = kryon_sum s"
  by (induction s) (auto simp: kryon_sum_def kryon_get_outside)

lemma join_sum: "kryon_sum (py_join blank ps) = sum_list (map kryon_sum ps)"
  by (induction blank ps rule: py_join.induct)
     (auto simp: kryon_sum_append, simp_all add: kryon_sum_def blank_def kryon_get_def KRYON_MAP_def)

lemma spelled_append: "spelled (a @ b) \<longleftrightarrow> spelled a \<and> spelled b"
  by (simp add: spelled_def)

lemma join_spelled: "list_all spelled ps \<Longrightarrow> spelled (py_join blank ps)"
  by (induction blank ps rule: py_join.induct)
     (auto simp: spelled_append, simp_all add: spelled_def blank_def)

lemma tab_HUNDS: "list_all (table_word 192) (tl HUNDS)"
  by (simp add: HUNDS_def table_word_def spelled_def in_alphabet_def kryon_sum_def kryon_get_def KRYON_MAP_def)
lemma tab_TENS: "list_all (table_word 192) (tl TENS)"
  by (simp add: TENS_def table_word_def spelled_def in_alphabet_def kryon_sum_def kryon_get_def KRYON_MAP_def)
lemma tab_UNITS: "list_all (table_word 192) (tl UNITS)"
  by (simp add: UNITS_def table_word_def spelled_def in_alphabet_def kryon_sum_def kryon_get_def KRYON_MAP_def)
lemma tab_UNITS_FEM: "list_all (table_word 192) (tl UNITS_FEM)"
  by (simp add: UNITS_FEM_def table_word_def spelled_def in_alphabet_def kryon_sum_def kryon_get_def KRYON_MAP_def)
lemma tab_TEENS: "list_all (table_word 192) TEENS"
  by (simp add: TEENS_def table_word_def spelled_def in_alphabet_def kryon_sum_def kryon_get_def KRYON_MAP_def)


lemma index_ok: "0 \<le> i \<Longrightarrow> i < int (length xs) \<Longrightarrow> py_index xs i = Inr (xs ! nat i)"
  by (simp add: py_index_def)

lemma nth_tl_table:
  assumes "list_all P (tl xs)" and "1 \<le> i" and "i < int (length xs)"
  shows "P (xs ! nat i)"
proof -
  from assms(2,3) obtain k where k: "nat i = Suc k" and kl: "k < length (tl xs)"
    by (cases "nat i") auto
  from assms(1) kl have "P (tl xs ! k)" by (simp add: list_all_length)
  with kl k show ?thesis by (simp add: nth_tl)
qed

lemma table_word_mono: "table_word B w \<Longrightarrow> B \<le> B' \<Longrightarrow> table_word B' w"
  by (auto simp: table_word_def)

lemma sum_table_words:
  "list_all (table_word B) ps \<Longrightarrow>
     int (length ps) \<le> sum_list (map kryon_sum ps) \<and> sum_list (map kryon_sum ps) \<le> B * int (length ps)"
  by (induction ps) (auto simp: table_word_def algebra_simps)

lemma join_table:
  assumes "list_all (table_word B) ps" and "ps \<noteq> []"
  shows "table_word (B * int (length ps)) (py_join blank ps)"
proof -
  from assms(1) have "list_all spelled ps"
    by (induction ps) (auto simp: table_word_def)
  then have sp: "spelled (py_join blank ps)" by (rule join_spelled)
  from assms(2) have "1 \<le> int (length ps)" by (cases ps) auto
  with sum_table_words[OF assms(1)] sp show ?thesis
    by (simp add: table_word_def join_sum)
qed

lemma words_0_999:
  assumes "1 \<le> n" and "n \<le> 999"
  shows "\<exists>s. number_to_words_0_999 n f = Inr s \<and> table_word 576 s"
proof -
  define units_arr where "units_arr = (if f then UNITS_FEM else UNITS)"
  define h where "h = n div 100"
  define t where "t = (n mod 100) div 10"
  define u where "u = n mod 10"
  from assms have hr: "0 \<le> h" "h \<le> 9" and tr: "0 \<le> t" "t \<le> 9" and ur: "0 \<le> u" "u \<le> 9"
    by (auto simp: h_def t_def u_def)
  from assms have nz: "h \<noteq> 0 \<or> t \<noteq> 0 \<or> u \<noteq> 0"
    unfolding h_def t_def u_def by presburger
  have len: "length HUNDS = 10" "length TENS = 10" "length TEENS = 10" "length units_arr = 10"
    by (simp_all add: HUNDS_def TENS_def TEENS_def units_arr_def UNITS_def UNITS_FEM_def)
  have tabU: "list_all (table_word 192) (tl units_arr)"
    by (simp add: units_arr_def tab_UNITS tab_UNITS_FEM)
  have H: "py_index HUNDS h = Inr (HUNDS ! nat h)" using hr len by (simp add: index_ok)
  have T: "py_index TENS t = Inr (TENS ! nat t)" using tr len by (simp add: index_ok)
  have E: "py_index TEENS u = Inr (TEENS ! nat u)" using ur len by (simp add: index_ok)
  have U: "py_index units_arr u = Inr (units_arr ! nat u)" using ur len by (simp add: index_ok)
  have Hw: "h \<noteq> 0 \<Longrightarrow> table_word 192 (HUNDS ! nat h)"
    using hr len by (intro nth_tl_table[OF tab_HUNDS]) auto
  have Tw: "t \<noteq> 0 \<Longrightarrow> table_word 192 (TENS ! nat t)"
    using tr len by (intro nth_tl_table[OF tab_TENS]) auto
  have Uw: "u \<noteq> 0 \<Longrightarrow> table_word 192 (units_arr ! nat u)"
    using ur len by (intro nth_tl_table[OF tabU]) auto
  have Ew: "table_word 192 (TEENS ! nat u)"
    using tab_TEENS ur len by (simp add: list_all_length)
  define out where "out =
     (if h \<noteq> 0 then [HUNDS ! nat h] else []) @
     (if t = 1 then [TEENS ! nat u]
      else (if t \<noteq> 0 then [TENS ! nat t] else []) @ (if u \<noteq> 0 then [units_arr ! nat u] else []))"
  from assms(1) have n0: "n \<noteq> 0" by simp
  have res: "number_to_words_0_999 n f = Inr (py_join blank out)"
    unfolding number_to_words_0_999_def Let_def
    using n0 H T E U
    by (simp add: and_then_def out_def h_def[symmetric] t_def[symmetric] u_def[symmetric]
                  units_arr_def[symmetric])
  have all: "list_all (table_word 192) out"
    using Hw Tw Uw Ew by (auto simp: out_def)
  have ne: "out \<noteq> []" using nz by (auto simp: out_def)
  have le3: "length out \<le> 3" by (auto simp: out_def)
  from join_table[OF all ne] have "table_word (192 * int (length out)) (py_join blank out)" .
  then have "table_word 576 (py_join blank out)"
    using le3 by (rule_tac table_word_mono) auto
  with res show ?thesis by blast
qed


lemma tab_thousand: "table_word 576 TYSYACH" "table_word 576 TYSYACHA" "table_word 576 TYSYACHI"
  "table_word 576 NOL"
  by (simp_all add: TYSYACH_def TYSYACHA_def TYSYACHI_def NOL_def table_word_def spelled_def
        in_alphabet_def kryon_sum_def kryon_get_def KRYON_MAP_def)

lemma words_ru:
  assumes "0 \<le> n" and "n \<le> 999999"
  shows "\<exists>s. number_to_words_ru_0_999999 n = Inr s \<and> table_word 1728 s"
proof (cases "n = 0")
  case True
  then show ?thesis
    using table_word_mono[OF tab_thousand(4), of 1728]
    by (simp add: number_to_words_ru_0_999999_def)
next
  case nz: False
  show ?thesis
  proof (cases "n < 1000")
    case True
    with nz assms obtain s where "number_to_words_0_999 n False = Inr s" "table_word 576 s"
      using words_0_999[of n False] by auto
    with nz True show ?thesis
      using table_word_mono[of 576 s 1728] by (simp add: number_to_words_ru_0_999999_def)
  next
    case False
    define T where "T = n div 1000"
    define R where "R = n mod 1000"
    define thousand_word where "thousand_word =
              (if T mod 100 \<in> {11, 12, 13, 14} then TYSYACH
               else if T mod 10 = 1 then TYSYACHA
               else if T mod 10 \<in> {2, 3, 4} then TYSYACHI
               else TYSYACH)"
    from False assms have Tr: "1 \<le> T" "T \<le> 999" and Rr: "0 \<le> R" "R \<le> 999"
      by (auto simp: T_def R_def)
    from Tr obtain ts where ts: "number_to_words_0_999 T True = Inr ts" "table_word 576 ts"
      using words_0_999[of T True] by auto
    have tw: "table_word 576 thousand_word"
      by (simp add: thousand_word_def tab_thousand)
    have "\<exists>parts. number_to_words_ru_0_999999 n = Inr (py_join blank parts) \<and>
             list_all (table_word 576) parts \<and> parts \<noteq> [] \<and> length parts \<le> 3"
    proof (cases "R > 0")
      case True
      with Rr obtain rs where rs: "number_to_words_0_999 R False = Inr rs" "table_word 576 rs"
        using words_0_999[of R False] by auto
      have "number_to_words_ru_0_999999 n = Inr (py_join blank [ts, thousand_word, rs])"
        unfolding number_to_words_ru_0_999999_def Let_def T_def[symmetric] R_def[symmetric]
          thousand_word_def[symmetric]
        using nz False True ts(1) rs(1)
        by (simp add: and_then_def)
      with ts(2) tw rs(2) show ?thesis by (intro exI[of _ "[ts, thousand_word, rs]"]) simp
    next
      case R0: False
      have "number_to_words_ru_0_999999 n = Inr (py_join blank [ts, thousand_word])"
        unfolding number_to_words_ru_0_999999_def Let_def T_def[symmetric] R_def[symmetric]
          thousand_word_def[symmetric]
        using nz False R0 ts(1)
        by (simp add: and_then_def)
      with ts(2) tw show ?thesis by (intro exI[of _ "[ts, thousand_word]"]) simp
    qed
    then obtain ps where ps: "number_to_words_ru_0_999999 n = Inr (py_join blank ps)"
      "list_all (table_word 576) ps" "ps \<noteq> []" "length ps \<le> 3" by blast
    from join_table[OF ps(2,3)] have "table_word (576 * int (length ps)) (py_join blank ps)" .
    then have "table_word 1728 (py_join blank ps)"
      using ps(4) by (rule_tac table_word_mono) auto
    with ps(1) show ?thesis by blast
  qed
qed

lemma l2c_of_spelled:
  "spelled s \<Longrightarrow> kryon_sum (normalize (filter (\<lambda>c. \<not> is_space c \<and> c \<noteq> 45) s)) = kryon_sum s"
  by (simp add: normalize_glue kryon_sum_filter)

lemma calc_l2c_in_range:
  assumes "0 \<le> l1" and "l1 \<le> 999999"
  shows "\<exists>l2c words glued. calc_l2c_from_l1 l1 = Inr (Some l2c, Some words, Some glued, False)
           \<and> 1 \<le> l2c \<and> l2c \<le> 1728"
proof -
  from words_ru[OF assms] obtain s where s: "number_to_words_ru_0_999999 l1 = Inr s"
    "table_word 1728 s" by blast
  from s(2) have "spelled s" "1 \<le> kryon_sum s" "kryon_sum s \<le> 1728"
    by (simp_all add: table_word_def)
  with assms s(1) show ?thesis
    by (simp add: calc_l2c_from_l1_def and_then_def Let_def l2c_of_spelled)
qed

lemma calc_l2c_out_of_range:
  "l1 < 0 \<or> l1 > 999999 \<Longrightarrow> calc_l2c_from_l1 l1 = Inr (None, None, None, True)"
  by (auto simp: calc_l2c_from_l1_def)

lemma metrics_zero: "metrics cfg 0 l2c = Inl ZeroDivisionError"
  by (simp add: metrics_def and_then_def py_truediv_def)

lemma and_then_Inr: "and_then (Inr x) f = f x"
  by (simp add: and_then_def)
lemma and_then_Inl: "and_then (Inl e) f = Inl e"
  by (simp add: and_then_def)
lemma py_truediv_ok: "b \<noteq> 0 \<Longrightarrow> py_truediv a b = Inr (a / b)"
  by (simp add: py_truediv_def)

lemma metrics_value:
  assumes "l1 \<noteq> 0" and "l2c + l1 \<noteq> 0" and "sigma_Z cfg \<noteq> 0"
  shows "metrics cfg l1 l2c =
     Inr (real_of_int l2c / real_of_int l1,
          metric_C (real_of_int \<bar>l2c - l1\<bar> / real_of_int (l2c + l1)),
          metric_Hm (real_of_int l2c / real_of_int l1),
          metric_Z (metric_C (real_of_int \<bar>l2c - l1\<bar> / real_of_int (l2c + l1)))
                   (metric_Hm (real_of_int l2c / real_of_int l1))
                   ((real_of_int l2c / real_of_int l1 - 2) / sigma_Z cfg))"
proof -
  from assms have a: "real_of_int l1 \<noteq> 0" and b: "real_of_int (l2c + l1) \<noteq> 0" by auto
  show ?thesis
    unfolding metrics_def Let_def py_truediv_ok[OF a] py_truediv_ok[OF b]
      py_truediv_ok[OF assms(3)] and_then_Inr ..
qed

lemma metrics_returns:
  assumes "1 \<le> l1" and "0 \<le> l2c" and "sigma_Z cfg \<noteq> 0"
  shows "\<exists>w C Hm Z. metrics cfg l1 l2c = Inr (w, C, Hm, Z)"
  using metrics_value[of l1 l2c cfg] assms by auto

lemma metric_C_range: "0 \<le> metric_C r \<and> metric_C r \<le> 1"
  unfolding metric_C_def using cos_le_one[of "pi / 2 * r"] cos_ge_minus_one[of "pi / 2 * r"]
  by (simp add: abs_square_le_1 abs_le_iff)

lemma metric_Hm_range: "0 \<le> metric_Hm w \<and> metric_Hm w \<le> 1"
  by (simp add: metric_Hm_def Let_def)

lemma metric_Z_range: "0 \<le> metric_Z C Hm q \<and> metric_Z C Hm q \<le> 1"
  by (simp add: metric_Z_def Let_def)

lemma unfold_loop_length_le:
  "unfold_loop cfg k l1 acc = Inr ws \<Longrightarrow> length ws \<le> length acc + k"
proof (induction k arbitrary: l1 acc)
  case 0
  then show ?case by simp
next
  case (Suc k)
  then show ?case
    by (fastforce simp: and_then_def split: sum.splits option.splits if_splits prod.splits)
qed

lemma unfold_loop_exact:
  assumes "sigma_Z cfg \<noteq> 0"
  shows "1 \<le> l1 \<Longrightarrow> l1 \<le> 999999 \<Longrightarrow>
         \<exists>ws. unfold_loop cfg k l1 acc = Inr ws \<and> length ws = length acc + k"
proof (induction k arbitrary: l1 acc)
  case 0
  show ?case by simp
next
  case (Suc k)
  from calc_l2c_in_range[of l1] Suc.prems obtain l2c words glued where
    c: "calc_l2c_from_l1 l1 = Inr (Some l2c, Some words, Some glued, False)"
    and r: "1 \<le> l2c" "l2c \<le> 1728" by auto
  from metrics_returns[of l1 l2c cfg] Suc.prems r assms obtain w C Hm Z where
    m: "metrics cfg l1 l2c = Inr (w, C, Hm, Z)" by auto
  from Suc.IH[of l2c "acc @ [w]"] r obtain ws where
    "unfold_loop cfg k l2c (acc @ [w]) = Inr ws" "length ws = length (acc @ [w]) + k" by auto
  with c m show ?case by (simp add: and_then_def)
qed


lemma breath_loop_counts:
  "breath_loop ws p i e = (p', i', e') \<Longrightarrow>
     i' + e' = i + e + int (length ws - 1) \<and> length p' = length p + (length ws - 1)"
  by (induction ws p i e rule: breath_loop.induct) (auto split: if_splits)

lemma fractal_unfold_of_values:
  assumes "fractal_w_values cfg l1 = Inr ws" and "ws \<noteq> []"
  shows "\<exists>pattern inhale exhale R interp.
           fractal_unfold cfg l1 = Inr (pattern, inhale, exhale, R, interp)
           \<and> inhale + exhale = int (length ws - 1) \<and> length pattern = length ws"
proof -
  obtain p i e where b: "breath_loop ws [] 0 0 = (p, i, e)" by (cases "breath_loop ws [] 0 0") auto
  from breath_loop_counts[OF b] have c: "i + e = int (length ws - 1)" "length p = length ws - 1"
    by simp_all
  from assms(2) have "0 < length ws" by simp
  with c have "length (p @ [8594]) = length ws" by simp
  with assms b c(1) show ?thesis
    by (simp add: fractal_unfold_def and_then_def Let_def)
qed

text \<open>
  Claim C2. \<open>calc_l2c_from_l1\<close> returns a defined \<open>l2c\<close> with the flag \<open>False\<close> for every
  \<open>l1\<close> in \<open>0..999999\<close>, in particular for \<open>999999\<close>; outside the range, in particular for
  \<open>1000000\<close> and \<open>-1\<close>, it returns the tuple of three \<open>None\<close> with the flag \<open>True\<close>. In
  both cases the function returns: no exception is raised.
\<close>

theorem C2_calc_l2c_flag:
  "(0 \<le> l1 \<and> l1 \<le> 999999 \<longrightarrow>
      (\<exists>l2c words glued. calc_l2c_from_l1 l1 = Inr (Some l2c, Some words, Some glued, False)))
   \<and> (l1 < 0 \<or> l1 > 999999 \<longrightarrow> calc_l2c_from_l1 l1 = Inr (None, None, None, True))
   \<and> (\<exists>l2c words glued. calc_l2c_from_l1 999999 = Inr (Some l2c, Some words, Some glued, False))
   \<and> calc_l2c_from_l1 1000000 = Inr (None, None, None, True)
   \<and> calc_l2c_from_l1 (- 1) = Inr (None, None, None, True)"
proof -
  have a: "0 \<le> l1 \<and> l1 \<le> 999999 \<longrightarrow>
      (\<exists>l2c words glued. calc_l2c_from_l1 l1 = Inr (Some l2c, Some words, Some glued, False))"
    using calc_l2c_in_range[of l1] by blast
  have b: "\<exists>l2c words glued. calc_l2c_from_l1 999999 = Inr (Some l2c, Some words, Some glued, False)"
    using calc_l2c_in_range[of 999999] by auto
  show ?thesis using a b by (simp add: calc_l2c_out_of_range)
qed

text \<open>The claim at \<open>l1 = 500\<close>.\<close>

theorem C2_witness:
  "\<exists>l2c words glued. calc_l2c_from_l1 500 = Inr (Some l2c, Some words, Some glued, False)"
  using C2_calc_l2c_flag[of 500] by simp

text \<open>
  Claim C10. For every \<open>l1\<close> with \<open>1 \<le> l1 \<le> 999999\<close>, \<open>calc_l2c_from_l1\<close> returns an
  \<open>l2c\<close> between 1 and 1728, far below the limit 999999; so every iteration of
  \<open>fractal_unfold\<close> stays in range, the early stop is never taken, and the sequence of
  \<open>w\<close> values has exactly 12 points (for a non-zero \<open>sigma_Z\<close>).
\<close>

theorem C10_l2c_stays_in_range:
  assumes "1 \<le> l1" and "l1 \<le> 999999"
  shows "(\<exists>l2c words glued.
            calc_l2c_from_l1 l1 = Inr (Some l2c, Some words, Some glued, False)
            \<and> 1 \<le> l2c \<and> l2c \<le> 1728 \<and> l2c \<le> 999999)
         \<and> (sigma_Z cfg \<noteq> 0 \<longrightarrow> (\<exists>ws. fractal_w_values cfg l1 = Inr ws \<and> length ws = 12))"
proof -
  from assms have "0 \<le> l1" by simp
  from calc_l2c_in_range[OF this assms(2)] have a: "\<exists>l2c words glued.
            calc_l2c_from_l1 l1 = Inr (Some l2c, Some words, Some glued, False)
            \<and> 1 \<le> l2c \<and> l2c \<le> 1728 \<and> l2c \<le> 999999" by fastforce
  have b: "\<exists>ws. fractal_w_values cfg l1 = Inr ws \<and> length ws = 12" if s: "sigma_Z cfg \<noteq> 0"
    using unfold_loop_exact[OF s assms, of 12 "[]"] by (simp add: fractal_w_values_def)
  from a b show ?thesis by blast
qed

text \<open>The claim at \<open>l1 = 999999\<close> under the default configuration.\<close>

theorem C10_witness:
  "(\<exists>l2c words glued.
            calc_l2c_from_l1 999999 = Inr (Some l2c, Some words, Some glued, False)
            \<and> 1 \<le> l2c \<and> l2c \<le> 1728)
         \<and> (\<exists>ws. fractal_w_values DEFAULT_CONFIG 999999 = Inr ws \<and> length ws = 12)"
  using C10_l2c_stays_in_range[of 999999 DEFAULT_CONFIG] by (auto simp: DEFAULT_CONFIG_def)

text \<open>
  Claim C6 fails at \<open>l1 = 0\<close>: zero is in range and so is its \<open>l2c = 72\<close> (the spelling
  NOL), but the first call of \<open>metrics\<close> divides by zero and \<open>fractal_unfold\<close> raises
  instead of collecting 12 values.
\<close>

theorem C6_unfold_zero_counterexample:
  "calc_l2c_from_l1 0 = Inr (Some 72, Some NOL, Some NOL, False)
   \<and> fractal_w_values DEFAULT_CONFIG 0 = Inl ZeroDivisionError
   \<and> fractal_unfold DEFAULT_CONFIG 0 = Inl ZeroDivisionError"
proof -
  have n: "normalize NOL = NOL"
    by (simp add: normalize_def kryon_upper_def kryon_upper_char_def in_alphabet_def NOL_def)
  have f: "filter (\<lambda>c. \<not> is_space c \<and> c \<noteq> 45) NOL = NOL"
    by (simp add: is_space_def NOL_def)
  have k: "kryon_sum NOL = 72"
    by (simp add: kryon_sum_def kryon_get_def KRYON_MAP_def NOL_def)
  have c: "calc_l2c_from_l1 0 = Inr (Some 72, Some NOL, Some NOL, False)"
    by (simp add: calc_l2c_from_l1_def number_to_words_ru_0_999999_def and_then_def n f k)
  have "unfold_loop DEFAULT_CONFIG (Suc 11) 0 [] = Inl ZeroDivisionError"
    unfolding unfold_loop.simps c by (simp add: and_then_def metrics_zero)
  then have w: "fractal_w_values DEFAULT_CONFIG 0 = Inl ZeroDivisionError"
    by (simp add: fractal_w_values_def)
  with c show ?thesis by (simp add: fractal_unfold_def and_then_def)
qed

text \<open>
  Claim C6, amended. \<open>fractal_unfold\<close> runs at most 12 iterations, so a sequence of \<open>w\<close>
  values that it collects never has more than 12 points; and if the initial \<open>l1\<close> lies in
  \<open>1..999999\<close> (for a non-zero \<open>sigma_Z\<close>) it collects exactly 12 values and derives the
  breath pattern from them: 11 marks and the arrow.
\<close>

theorem C6_fractal_unfold_bounded:
  "(\<forall>ws. fractal_w_values cfg l1 = Inr ws \<longrightarrow> length ws \<le> 12)
   \<and> (1 \<le> l1 \<and> l1 \<le> 999999 \<and> sigma_Z cfg \<noteq> 0 \<longrightarrow>
        (\<exists>ws. fractal_w_values cfg l1 = Inr ws \<and> length ws = 12)
        \<and> (\<exists>pattern inhale exhale R interp.
              fractal_unfold cfg l1 = Inr (pattern, inhale, exhale, R, interp)
              \<and> inhale + exhale = 11 \<and> length pattern = 12))"
proof -
  have a: "\<forall>ws. fractal_w_values cfg l1 = Inr ws \<longrightarrow> length ws \<le> 12"
    using unfold_loop_length_le[of cfg 12 l1 "[]"] by (simp add: fractal_w_values_def)
  have b: "(\<exists>ws. fractal_w_values cfg l1 = Inr ws \<and> length ws = 12)
        \<and> (\<exists>pattern inhale exhale R interp.
              fractal_unfold cfg l1 = Inr (pattern, inhale, exhale, R, interp)
              \<and> inhale + exhale = 11 \<and> length pattern = 12)"
    if h: "1 \<le> l1" "l1 \<le> 999999" "sigma_Z cfg \<noteq> 0"
  proof -
    from unfold_loop_exact[OF h(3) h(1,2), of 12 "[]"] obtain ws where
      ws: "fractal_w_values cfg l1 = Inr ws" "length ws = 12"
      by (auto simp: fractal_w_values_def)
    then have "ws \<noteq> []" by auto
    from fractal_unfold_of_values[OF ws(1) this] ws show ?thesis by auto
  qed
  from a b show ?thesis by blast
qed

text \<open>The amended claim at \<open>l1 = 1\<close> under the default configuration.\<close>

theorem C6_witness:
  "(\<exists>ws. fractal_w_values DEFAULT_CONFIG 1 = Inr ws \<and> length ws = 12)
   \<and> (\<exists>pattern inhale exhale R interp.
              fractal_unfold DEFAULT_CONFIG 1 = Inr (pattern, inhale, exhale, R, interp)
              \<and> inhale + exhale = 11 \<and> length pattern = 12)"
  using C6_fractal_unfold_bounded[of DEFAULT_CONFIG 1] by (simp add: DEFAULT_CONFIG_def)

section \<open>Composite index and clusters\<close>

lemma metrics_ranges:
  assumes "metrics cfg l1 l2c = Inr (w, C, Hm, Z)"
  shows "0 \<le> C \<and> C \<le> 1 \<and> 0 \<le> Hm \<and> Hm \<le> 1 \<and> 0 \<le> Z \<and> Z \<le> 1"
proof -
  from assms obtain r q where "C = metric_C r" "Hm = metric_Hm w" "Z = metric_Z C Hm q"
    by (auto simp: metrics_def and_then_def py_truediv_def Let_def split: if_splits)
  then show ?thesis
    using metric_C_range[of r] metric_Hm_range[of w] metric_Z_range[of C Hm q] by simp
qed

lemma fii_linear:
  fixes Z C Hm :: real
  shows "10 * (0.4 * Z + 0.3 * ((Z + C + Hm) / 3.0) + 0.2 * C + 0.1 * Hm - 0.5)
         = 5 * Z + 3 * C + 2 * Hm - 5"
  by (simp add: field_simps)

lemma fii_range:
  fixes Z C Hm :: real
  assumes "0 \<le> Z" "Z \<le> 1" "0 \<le> C" "C \<le> 1" "0 \<le> Hm" "Hm \<le> 1"
  shows "- 5 \<le> 10 * (0.4 * Z + 0.3 * ((Z + C + Hm) / 3.0) + 0.2 * C + 0.1 * Hm - 0.5)"
    and "10 * (0.4 * Z + 0.3 * ((Z + C + Hm) / 3.0) + 0.2 * C + 0.1 * Hm - 0.5) \<le> 5"
  unfolding fii_linear using assms by linarith+

lemma cat_distinct:
  "cat_dissipator \<noteq> cat_destroyer" "cat_neutral \<noteq> cat_destroyer" "cat_harmonizer \<noteq> cat_destroyer"
  "cat_dissipator \<noteq> cat_resonator" "cat_neutral \<noteq> cat_resonator" "cat_harmonizer \<noteq> cat_resonator"
  by (simp_all add: cat_dissipator_def cat_neutral_def cat_harmonizer_def cat_destroyer_def
        cat_resonator_def)

lemma fii_bar_mid:
  assumes "- 5 \<le> fii" "fii \<le> 5"
  shows "snd (fii_bar fii) \<noteq> cat_destroyer \<and> snd (fii_bar fii) \<noteq> cat_resonator"
  using assms by (simp add: fii_bar_def Let_def cat_distinct)

lemma cluster_by_w_bins:
  "fst (cluster_by_w w) = s_phi \<longleftrightarrow> 1.0 \<le> w \<and> w < 1.6"
  "fst (cluster_by_w w) = s_e \<longleftrightarrow> 1.6 \<le> w \<and> w < 2.7"
  "fst (cluster_by_w w) = s_e_pi \<longleftrightarrow> 2.7 \<le> w \<and> w < 3.2"
  "fst (cluster_by_w w) = s_pi \<longleftrightarrow> w \<ge> 3.2 \<or> w < 1.0"
  by (auto simp: cluster_by_w_def s_phi_def s_e_def s_e_pi_def s_pi_def)

text \<open>
  Claim C5 at \<open>w = 63/200\<close> (the ratio of \<open>l1 = 200\<close> and its spelling DVESTI with
  \<open>l2c = 63\<close>): \<open>cluster_by_w\<close> answers \<open>pi\<close> although \<open>w\<close> is below 3.2, while the
  sibling \<open>clusters_from_w\<close> answers \<open>phi\<close> there and keeps \<open>pi\<close> for \<open>w \<ge> 3.2\<close>.
\<close>

theorem C5_cluster_below_one:
  "cluster_by_w (63 / 200) = (s_pi, ru_pi) \<and> \<not> (3.2 \<le> (63 / 200 :: real))
   \<and> clusters_from_w (63 / 200) = s_phi"
  by (simp add: cluster_by_w_def clusters_from_w_def)


lemma alphabet_enum: "in_alphabet c \<longleftrightarrow> c \<in> set (1025 # [1040..<1072])"
  unfolding in_alphabet_def list.set set_upt by auto

lemma kryon_get_table: "list_all (\<lambda>c. 1 \<le> kryon_get c) (1025 # [1040..<1072])"
  by (simp add: kryon_get_def KRYON_MAP_def)

lemma kryon_get_pos: "in_alphabet c \<Longrightarrow> 1 \<le> kryon_get c"
  using kryon_get_table unfolding alphabet_enum list_all_iff by blast

lemma normalize_alphabet: "list_all in_alphabet (normalize t)"
  by (simp add: normalize_def list_all_iff)

lemma kryon_sum_pos: "list_all in_alphabet s \<Longrightarrow> s \<noteq> [] \<Longrightarrow> 1 \<le> kryon_sum s"
proof (induction s)
  case Nil
  then show ?case by simp
next
  case (Cons c s)
  then have c: "1 \<le> kryon_get c" by (simp add: kryon_get_pos)
  have "0 \<le> kryon_sum s" unfolding kryon_sum_def
    by (rule sum_list_nonneg) (use kryon_get_range in auto)
  with c show ?case by (simp add: kryon_sum_def)
qed

lemma normalize_idem: "normalize (normalize t) = normalize t"
proof -
  have "map kryon_upper_char (filter in_alphabet xs) = filter in_alphabet xs" for xs
    by (induction xs) (auto simp: kryon_upper_char_alphabet)
  then show ?thesis by (simp add: normalize_def kryon_upper_def)
qed

lemma calc_l1_nonzero: "normalize s \<noteq> [] \<Longrightarrow> 1 \<le> snd (calc_l1_from_string s)"
  by (simp add: calc_l1_from_string_def Let_def kryon_sum_pos normalize_alphabet)

lemma fractal_unfold_returns:
  assumes "1 \<le> l1" and "l1 \<le> 999999" and "sigma_Z cfg \<noteq> 0"
  shows "\<exists>fr. fractal_unfold cfg l1 = Inr fr"
proof -
  from unfold_loop_exact[OF assms(3) assms(1,2), of 12 "[]"] obtain ws where
    ws: "fractal_w_values cfg l1 = Inr ws" "length ws = 12"
    by (auto simp: fractal_w_values_def)
  then have "ws \<noteq> []" by auto
  from fractal_unfold_of_values[OF ws(1) this] show ?thesis by blast
qed

lemma analyze_word_returns:
  assumes "sigma_Z cfg \<noteq> 0" and "parse_date_phrase raw = None" and "normalize raw \<noteq> []"
    and "kryon_sum (normalize raw) \<le> 999999"
  shows "\<exists>res. analyze_word cfg parse_date_phrase raw = Inr (Some res)"
proof -
  define l1 where "l1 = kryon_sum (normalize raw)"
  have c1: "calc_l1_from_string raw = (Some (normalize raw), l1)"
    using assms(3) by (simp add: calc_l1_from_string_def l1_def Let_def)
  have l1r: "1 \<le> l1" "l1 \<le> 999999"
    using calc_l1_nonzero[OF assms(3)] c1 assms(4) by (simp_all add: l1_def)
  then have "0 \<le> l1" by simp
  from calc_l2c_in_range[OF this l1r(2)] obtain l2c words glued where
    c2: "calc_l2c_from_l1 l1 = Inr (Some l2c, Some words, Some glued, False)" and r: "1 \<le> l2c"
    by blast
  from metrics_returns[of l1 l2c cfg] l1r r assms(1) obtain w C Hm Z where
    m: "metrics cfg l1 l2c = Inr (w, C, Hm, Z)" by auto
  from fractal_unfold_returns[OF l1r assms(1)] obtain fr where
    f: "fractal_unfold cfg l1 = Inr fr" by blast
  obtain fb fc where fb: "fii_bar (10 * (0.4 * Z + 0.3 * ((Z + C + Hm) / 3.0) + 0.2 * C + 0.1 * Hm - 0.5)) = (fb, fc)"
    by (cases "fii_bar (10 * (0.4 * Z + 0.3 * ((Z + C + Hm) / 3.0) + 0.2 * C + 0.1 * Hm - 0.5))") auto
  from l1r have "l1 \<noteq> 0" by simp
  then show ?thesis
    unfolding analyze_word_def Let_def assms(2) option.case c1 prod.case c2 and_then_Inr m f fb
    by simp
qed

lemma analyze_word_result:
  assumes "analyze_word cfg parse_date_phrase raw = Inr (Some res)"
  shows "\<exists>l1 l2c w. metrics cfg l1 l2c = Inr (w, a_C res, a_Hm res, a_Z res)
          \<and> a_fii res = 10 * (0.4 * a_Z res + 0.3 * ((a_Z res + a_C res + a_Hm res) / 3.0)
                                + 0.2 * a_C res + 0.1 * a_Hm res - 0.5)
          \<and> a_fii_category res = snd (fii_bar (a_fii res))"
  using assms unfolding analyze_word_def Let_def and_then_def
  apply (auto split: prod.splits option.splits sum.splits if_splits)
       apply blast+
  done

lemma kryon_sum_nonneg: "0 \<le> kryon_sum s"
  unfolding kryon_sum_def by (rule sum_list_nonneg) (use kryon_get_range in auto)

lemma analyze_word_total:
  assumes "sigma_Z cfg \<noteq> 0"
  shows "\<exists>res. analyze_word cfg parse_date_phrase raw = Inr res"
proof -
  define src where "src = (case parse_date_phrase raw of
                   None \<Rightarrow> raw
                 | Some phrase \<Rightarrow> if phrase = [] then raw else phrase)"
  obtain no l1 where c1: "calc_l1_from_string src = (no, l1)"
    by (cases "calc_l1_from_string src")
  then have nn: "0 \<le> l1"
    using kryon_sum_nonneg[of "normalize src"]
    by (auto simp: calc_l1_from_string_def Let_def split: if_splits)
  show ?thesis
  proof (cases "l1 = 0")
    case True
    with c1 show ?thesis
      unfolding analyze_word_def Let_def src_def[symmetric] by simp
  next
    case nz: False
    show ?thesis
    proof (cases "l1 \<le> 999999")
      case False
      then have "calc_l2c_from_l1 l1 = Inr (None, None, None, True)"
        by (simp add: calc_l2c_out_of_range)
      with c1 nz show ?thesis
        unfolding analyze_word_def Let_def src_def[symmetric] by (simp add: and_then_Inr)
    next
      case True
      from nn nz have l1: "1 \<le> l1" by simp
      from calc_l2c_in_range[OF nn True] obtain l2c words glued where
        c2: "calc_l2c_from_l1 l1 = Inr (Some l2c, Some words, Some glued, False)" and r: "1 \<le> l2c"
        by blast
      from metrics_returns[of l1 l2c cfg] l1 r assms obtain w C Hm Z where
        m: "metrics cfg l1 l2c = Inr (w, C, Hm, Z)" by auto
      from fractal_unfold_returns[OF l1 True assms] obtain fr where
        f: "fractal_unfold cfg l1 = Inr fr" by blast
      obtain fb fc where fb: "fii_bar (10 * (0.4 * Z + 0.3 * ((Z + C + Hm) / 3.0) + 0.2 * C + 0.1 * Hm - 0.5)) = (fb, fc)"
        by (cases "fii_bar (10 * (0.4 * Z + 0.3 * ((Z + C + Hm) / 3.0) + 0.2 * C + 0.1 * Hm - 0.5))") auto
      show ?thesis
        unfolding analyze_word_def Let_def src_def[symmetric] c1 prod.case c2 option.case and_then_Inr m f fb
        using nz by simp
    qed
  qed
qed

lemma metrics_sigma_zero:
  assumes "1 \<le> l1" and "0 \<le> l2c" and "sigma_Z cfg = 0"
  shows "metrics cfg l1 l2c = Inl ZeroDivisionError"
proof -
  from assms have a: "real_of_int l1 \<noteq> 0" and b: "real_of_int (l2c + l1) \<noteq> 0" by auto
  have c: "py_truediv x (sigma_Z cfg) = Inl ZeroDivisionError" for x
    using assms(3) by (simp add: py_truediv_def)
  show ?thesis
    unfolding metrics_def Let_def py_truediv_ok[OF a] py_truediv_ok[OF b] c and_then_Inr
      and_then_Inl ..
qed

lemma analyze_word_no_letters:
  assumes "parse_date_phrase raw = None" and "snd (calc_l1_from_string raw) = 0"
  shows "analyze_word cfg parse_date_phrase raw = Inr None"
proof -
  obtain no l1 where c1: "calc_l1_from_string raw = (no, l1)"
    by (cases "calc_l1_from_string raw")
  with assms(2) have "l1 = 0" by simp
  with c1 show ?thesis
    unfolding analyze_word_def Let_def assms(1) option.case by simp
qed

lemma calc_l2c_one: "calc_l2c_from_l1 1 = Inr (Some 46, Some [1054, 1044, 1048, 1053],
                                              Some [1054, 1044, 1048, 1053], False)"
proof -
  define odin :: ustring where "odin = [1054, 1044, 1048, 1053]"
  have w: "number_to_words_ru_0_999999 1 = Inr odin"
    by (simp add: number_to_words_ru_0_999999_def number_to_words_0_999_def and_then_def
          py_index_def UNITS_def blank_def odin_def)
  have n: "normalize odin = odin"
    by (simp add: normalize_def kryon_upper_def kryon_upper_char_def in_alphabet_def odin_def)
  have f: "filter (\<lambda>c. \<not> is_space c \<and> c \<noteq> 45) odin = odin"
    by (simp add: is_space_def odin_def)
  have k: "kryon_sum odin = 46"
    by (simp add: kryon_sum_def kryon_get_def KRYON_MAP_def odin_def)
  have "calc_l2c_from_l1 1 = Inr (Some 46, Some odin, Some odin, False)"
    by (simp add: calc_l2c_from_l1_def w and_then_def n f k)
  then show ?thesis by (simp only: odin_def)
qed

text \<open>
  Claim C1 fails. At \<open>l1 = 1\<close> (in range, \<open>l2c = 46\<close> for the spelling ODIN) \<open>metrics\<close>
  does not return the four metrics when the configured \<open>sigma_Z\<close> is zero: the division by
  \<open>sigma\<close> raises. And the division error of a zero code is an exception that leaves the
  computation: \<open>force_recalc_row\<close> on the text "1", which has no letter and so the code
  zero, raises it.
\<close>

theorem C1_sigma_zero_counterexample:
  "calc_l2c_from_l1 1 = Inr (Some 46, Some [1054, 1044, 1048, 1053],
                             Some [1054, 1044, 1048, 1053], False)
   \<and> metrics (DEFAULT_CONFIG\<lparr>sigma_Z := 0\<rparr>) 1 46 = Inl ZeroDivisionError
   \<and> force_recalc_row DEFAULT_CONFIG [49] s_prochee s_neutral (PBool True) (Text []) None None
        None None = Inl ZeroDivisionError"
proof -
  have m: "metrics (DEFAULT_CONFIG\<lparr>sigma_Z := 0\<rparr>) 1 46 = Inl ZeroDivisionError"
    by (rule metrics_sigma_zero) simp_all
  have n: "normalize [49] = []"
    by (simp add: normalize_def kryon_upper_def kryon_upper_char_def in_alphabet_def)
  have c1: "calc_l1_from_string [49] = (None, 0)"
    by (simp add: calc_l1_from_string_def n)
  have nn: "normalize NOL = NOL"
    by (simp add: normalize_def kryon_upper_def kryon_upper_char_def in_alphabet_def NOL_def)
  have ff: "filter (\<lambda>c. \<not> is_space c \<and> c \<noteq> 45) NOL = NOL"
    by (simp add: is_space_def NOL_def)
  have kk: "kryon_sum NOL = 72"
    by (simp add: kryon_sum_def kryon_get_def KRYON_MAP_def NOL_def)
  have c0: "calc_l2c_from_l1 0 = Inr (Some 72, Some NOL, Some NOL, False)"
    by (simp add: calc_l2c_from_l1_def number_to_words_ru_0_999999_def and_then_def nn ff kk)
  have f: "force_recalc_row DEFAULT_CONFIG [49] s_prochee s_neutral (PBool True) (Text []) None None
        None None = Inl ZeroDivisionError"
    by (simp add: force_recalc_row_def Let_def c1 c0 and_then_Inr metrics_zero and_then_Inl)
  from calc_l2c_one m f show ?thesis by blast
qed

text \<open>
  Claim C1, amended. For every \<open>l1\<close> with \<open>0 \<le> l1 \<le> 999999\<close> the spelling step returns
  an \<open>l2c\<close> (flag \<open>False\<close>). On it, \<open>metrics\<close> raises the division error at the first
  step \<open>w = l2c / l1\<close> when \<open>l1 = 0\<close>; for \<open>l1 \<ge> 1\<close> it returns the four metrics
  \<open>(w, C, Hm, Z)\<close> when the configured \<open>sigma_Z\<close> is not zero, and raises the division
  error when it is zero. \<open>analyze_word\<close> answers an input without letters (code zero) with
  the empty result before any division, and for a non-zero \<open>sigma_Z\<close> it returns on every
  input.
\<close>

theorem C1_metric_computation_total:
  "(0 \<le> l1 \<and> l1 \<le> 999999 \<longrightarrow>
      (\<exists>l2c words glued.
         calc_l2c_from_l1 l1 = Inr (Some l2c, Some words, Some glued, False)
         \<and> (l1 = 0 \<longrightarrow> py_truediv (real_of_int l2c) (real_of_int l1) = Inl ZeroDivisionError
                        \<and> metrics cfg l1 l2c = Inl ZeroDivisionError)
         \<and> (1 \<le> l1 \<and> sigma_Z cfg \<noteq> 0 \<longrightarrow>
               (\<exists>w C Hm Z. metrics cfg l1 l2c = Inr (w, C, Hm, Z)))
         \<and> (1 \<le> l1 \<and> sigma_Z cfg = 0 \<longrightarrow> metrics cfg l1 l2c = Inl ZeroDivisionError)))
   \<and> (parse_date_phrase raw = None \<and> snd (calc_l1_from_string raw) = 0 \<longrightarrow>
        analyze_word cfg parse_date_phrase raw = Inr None)
   \<and> (sigma_Z cfg \<noteq> 0 \<longrightarrow> (\<exists>res. analyze_word cfg parse_date_phrase raw = Inr res))"
proof -
  have a: "\<exists>l2c words glued.
             calc_l2c_from_l1 l1 = Inr (Some l2c, Some words, Some glued, False)
             \<and> (l1 = 0 \<longrightarrow> py_truediv (real_of_int l2c) (real_of_int l1) = Inl ZeroDivisionError
                            \<and> metrics cfg l1 l2c = Inl ZeroDivisionError)
             \<and> (1 \<le> l1 \<and> sigma_Z cfg \<noteq> 0 \<longrightarrow>
                   (\<exists>w C Hm Z. metrics cfg l1 l2c = Inr (w, C, Hm, Z)))
             \<and> (1 \<le> l1 \<and> sigma_Z cfg = 0 \<longrightarrow> metrics cfg l1 l2c = Inl ZeroDivisionError)"
    if h: "0 \<le> l1" "l1 \<le> 999999"
  proof -
    from calc_l2c_in_range[OF h] obtain l2c words glued where
      c: "calc_l2c_from_l1 l1 = Inr (Some l2c, Some words, Some glued, False)" and r: "1 \<le> l2c"
      by blast
    have z: "l1 = 0 \<longrightarrow> py_truediv (real_of_int l2c) (real_of_int l1) = Inl ZeroDivisionError
                          \<and> metrics cfg l1 l2c = Inl ZeroDivisionError"
      by (simp add: metrics_zero py_truediv_def)
    have p: "1 \<le> l1 \<and> sigma_Z cfg \<noteq> 0 \<longrightarrow> (\<exists>w C Hm Z. metrics cfg l1 l2c = Inr (w, C, Hm, Z))"
      using metrics_returns[of l1 l2c cfg] r by simp
    have q: "1 \<le> l1 \<and> sigma_Z cfg = 0 \<longrightarrow> metrics cfg l1 l2c = Inl ZeroDivisionError"
      using metrics_sigma_zero[of l1 l2c cfg] r by simp
    from c z p q show ?thesis by blast
  qed
  have b: "\<exists>res. analyze_word cfg parse_date_phrase raw = Inr res" if "sigma_Z cfg \<noteq> 0"
    using analyze_word_total[OF that] .
  have g: "analyze_word cfg parse_date_phrase raw = Inr None"
    if "parse_date_phrase raw = None" "snd (calc_l1_from_string raw) = 0"
    using analyze_word_no_letters[of parse_date_phrase raw cfg] that by simp
  from a b g show ?thesis by blast
qed

text \<open>The amended claim at \<open>l1 = 0\<close> and \<open>l1 = 1\<close>, with the default configuration and
  with \<open>sigma_Z = 0\<close>, and at the empty input and the one-letter word A.\<close>

theorem C1_witness:
  "(\<exists>l2c words glued.
      calc_l2c_from_l1 0 = Inr (Some l2c, Some words, Some glued, False)
      \<and> metrics DEFAULT_CONFIG 0 l2c = Inl ZeroDivisionError)
   \<and> (\<exists>l2c words glued.
      calc_l2c_from_l1 1 = Inr (Some l2c, Some words, Some glued, False)
      \<and> (\<exists>w C Hm Z. metrics DEFAULT_CONFIG 1 l2c = Inr (w, C, Hm, Z))
      \<and> metrics (DEFAULT_CONFIG\<lparr>sigma_Z := 0\<rparr>) 1 l2c = Inl ZeroDivisionError)
   \<and> analyze_word DEFAULT_CONFIG (\<lambda>t. None) [] = Inr None
   \<and> (\<exists>res. analyze_word DEFAULT_CONFIG (\<lambda>t. None) [1040] = Inr res)"
proof -
  have s: "sigma_Z DEFAULT_CONFIG \<noteq> 0" "sigma_Z (DEFAULT_CONFIG\<lparr>sigma_Z := 0\<rparr>) = 0"
    by (simp_all add: DEFAULT_CONFIG_def)
  have e: "snd (calc_l1_from_string []) = 0"
    by (simp add: calc_l1_from_string_def normalize_def kryon_upper_def)
  note at0 = C1_metric_computation_total[where ?l1.0 = 0 and cfg = DEFAULT_CONFIG
      and raw = "[]" and parse_date_phrase = "\<lambda>t. None"]
  note at1 = C1_metric_computation_total[where ?l1.0 = 1 and cfg = DEFAULT_CONFIG
      and raw = "[1040]" and parse_date_phrase = "\<lambda>t. None"]
  note at1z = C1_metric_computation_total[where ?l1.0 = 1
      and cfg = "DEFAULT_CONFIG\<lparr>sigma_Z := 0\<rparr>"
      and raw = "[1040]" and parse_date_phrase = "\<lambda>t. None"]
  have a: "\<exists>l2c words glued.
      calc_l2c_from_l1 0 = Inr (Some l2c, Some words, Some glued, False)
      \<and> metrics DEFAULT_CONFIG 0 l2c = Inl ZeroDivisionError"
    using at0 by auto
  have b: "analyze_word DEFAULT_CONFIG (\<lambda>t. None) [] = Inr None"
    using at0 e by simp
  have c: "\<exists>res. analyze_word DEFAULT_CONFIG (\<lambda>t. None) [1040] = Inr res"
    using at1 s(1) by simp
  from at1 s(1) obtain l2c words glued w C Hm Z where
    d1: "calc_l2c_from_l1 1 = Inr (Some l2c, Some words, Some glued, False)"
    and d2: "metrics DEFAULT_CONFIG 1 l2c = Inr (w, C, Hm, Z)" by auto
  from at1z s(2) d1
  have d3: "metrics (DEFAULT_CONFIG\<lparr>sigma_Z := 0\<rparr>) 1 l2c = Inl ZeroDivisionError" by auto
  from a b c d1 d2 d3 show ?thesis by blast
qed

text \<open>
  Claim C8. For integers \<open>l1 \<ge> 1\<close> and \<open>l2c \<ge> 0\<close>, whatever \<open>metrics\<close> returns has
  \<open>C\<close>, \<open>Hm\<close> and \<open>Z\<close> in the unit interval, in exact real arithmetic; and it does return
  when \<open>sigma_Z\<close> is not zero.
\<close>

theorem C8_metrics_unit_interval:
  assumes "1 \<le> l1" and "0 \<le> l2c"
  shows "(\<forall>w C Hm Z. metrics cfg l1 l2c = Inr (w, C, Hm, Z) \<longrightarrow>
            0 \<le> C \<and> C \<le> 1 \<and> 0 \<le> Hm \<and> Hm \<le> 1 \<and> 0 \<le> Z \<and> Z \<le> 1)
         \<and> (sigma_Z cfg \<noteq> 0 \<longrightarrow>
              (\<exists>w C Hm Z. metrics cfg l1 l2c = Inr (w, C, Hm, Z)
                 \<and> 0 \<le> C \<and> C \<le> 1 \<and> 0 \<le> Hm \<and> Hm \<le> 1 \<and> 0 \<le> Z \<and> Z \<le> 1))"
proof -
  have a: "\<forall>w C Hm Z. metrics cfg l1 l2c = Inr (w, C, Hm, Z) \<longrightarrow>
            0 \<le> C \<and> C \<le> 1 \<and> 0 \<le> Hm \<and> Hm \<le> 1 \<and> 0 \<le> Z \<and> Z \<le> 1"
    using metrics_ranges by blast
  have "\<exists>w C Hm Z. metrics cfg l1 l2c = Inr (w, C, Hm, Z)" if "sigma_Z cfg \<noteq> 0"
    using metrics_returns[OF assms that] .
  with a show ?thesis by blast
qed

text \<open>The claim at \<open>l1 = 1\<close>, \<open>l2c = 46\<close> (the letter A and its spelling ODIN).\<close>

theorem C8_witness:
  "\<exists>w C Hm Z. metrics DEFAULT_CONFIG 1 46 = Inr (w, C, Hm, Z)
           \<and> 0 \<le> C \<and> C \<le> 1 \<and> 0 \<le> Hm \<and> Hm \<le> 1 \<and> 0 \<le> Z \<and> Z \<le> 1"
  using C8_metrics_unit_interval[of 1 46 DEFAULT_CONFIG] by (simp add: DEFAULT_CONFIG_def)

text \<open>
  Claim C9. For \<open>Z\<close>, \<open>C\<close>, \<open>Hm\<close> in the unit interval the composite
  \<open>FII = 10 * (0.4 Z + 0.3 Q + 0.2 C + 0.1 Hm - 0.5)\<close> with \<open>Q = (Z + C + Hm) / 3\<close> lies in
  \<open>[-5, 5]\<close>, and \<open>fii_bar\<close> gives it neither the first category (Razrushitel, for
  \<open>FII \<le> -6\<close>) nor the last (Rezonator, for \<open>FII \<ge> 6\<close>); so no result of \<open>analyze_word\<close>
  carries one of these two categories.
\<close>

theorem C9_fii_never_extreme:
  "(0 \<le> Z \<and> Z \<le> 1 \<and> 0 \<le> C \<and> C \<le> 1 \<and> 0 \<le> Hm \<and> Hm \<le> 1 \<longrightarrow>
      - 5 \<le> 10 * (0.4 * Z + 0.3 * ((Z + C + Hm) / 3.0) + 0.2 * C + 0.1 * Hm - 0.5)
      \<and> 10 * (0.4 * Z + 0.3 * ((Z + C + Hm) / 3.0) + 0.2 * C + 0.1 * Hm - 0.5) \<le> 5
      \<and> snd (fii_bar (10 * (0.4 * Z + 0.3 * ((Z + C + Hm) / 3.0) + 0.2 * C + 0.1 * Hm - 0.5)))
            \<noteq> cat_destroyer
      \<and> snd (fii_bar (10 * (0.4 * Z + 0.3 * ((Z + C + Hm) / 3.0) + 0.2 * C + 0.1 * Hm - 0.5)))
            \<noteq> cat_resonator)
   \<and> (analyze_word cfg parse_date_phrase raw = Inr (Some res) \<longrightarrow>
        - 5 \<le> a_fii res \<and> a_fii res \<le> 5
        \<and> a_fii_category res \<noteq> cat_destroyer \<and> a_fii_category res \<noteq> cat_resonator)"
proof -
  have pure: "- 5 \<le> 10 * (0.4 * z + 0.3 * ((z + c + h) / 3.0) + 0.2 * c + 0.1 * h - 0.5)
      \<and> 10 * (0.4 * z + 0.3 * ((z + c + h) / 3.0) + 0.2 * c + 0.1 * h - 0.5) \<le> 5
      \<and> snd (fii_bar (10 * (0.4 * z + 0.3 * ((z + c + h) / 3.0) + 0.2 * c + 0.1 * h - 0.5)))
            \<noteq> cat_destroyer
      \<and> snd (fii_bar (10 * (0.4 * z + 0.3 * ((z + c + h) / 3.0) + 0.2 * c + 0.1 * h - 0.5)))
            \<noteq> cat_resonator"
    if "0 \<le> z" "z \<le> 1" "0 \<le> c" "c \<le> 1" "0 \<le> h" "h \<le> 1" for z c h :: real
    using fii_range[OF that] fii_bar_mid[OF fii_range[OF that]] by blast
  have ana: "- 5 \<le> a_fii res \<and> a_fii res \<le> 5
        \<and> a_fii_category res \<noteq> cat_destroyer \<and> a_fii_category res \<noteq> cat_resonator"
    if a: "analyze_word cfg parse_date_phrase raw = Inr (Some res)"
  proof -
    from analyze_word_result[OF a] obtain l1 l2c w where
      m: "metrics cfg l1 l2c = Inr (w, a_C res, a_Hm res, a_Z res)"
      and f: "a_fii res = 10 * (0.4 * a_Z res + 0.3 * ((a_Z res + a_C res + a_Hm res) / 3.0)
                                + 0.2 * a_C res + 0.1 * a_Hm res - 0.5)"
      and c: "a_fii_category res = snd (fii_bar (a_fii res))" by blast
    from metrics_ranges[OF m] have "0 \<le> a_Z res" "a_Z res \<le> 1" "0 \<le> a_C res" "a_C res \<le> 1"
      "0 \<le> a_Hm res" "a_Hm res \<le> 1" by simp_all
    from pure[OF this] show ?thesis unfolding c f by blast
  qed
  from pure ana show ?thesis by blast
qed

text \<open>The claim at the one-letter word A under the default configuration.\<close>

theorem C9_witness:
  "\<exists>res. analyze_word DEFAULT_CONFIG (\<lambda>t. None) [1040] = Inr (Some res)
      \<and> - 5 \<le> a_fii res \<and> a_fii res \<le> 5
      \<and> a_fii_category res \<noteq> cat_destroyer \<and> a_fii_category res \<noteq> cat_resonator"
proof -
  have n: "normalize [1040] = [1040]"
    by (simp add: normalize_def kryon_upper_def kryon_upper_char_def in_alphabet_def)
  have "kryon_sum [1040] = 1" by (simp add: kryon_sum_def kryon_get_def KRYON_MAP_def)
  with n obtain res where r: "analyze_word DEFAULT_CONFIG (\<lambda>t. None) [1040] = Inr (Some res)"
    using analyze_word_returns[of DEFAULT_CONFIG "\<lambda>t. None" "[1040]"]
    by (auto simp: DEFAULT_CONFIG_def)
  with C9_fii_never_extreme[of 0 0 0 DEFAULT_CONFIG "\<lambda>t. None" "[1040]" res] show ?thesis
    by blast
qed

section \<open>The index after a rebuild\<close>

lemma index_add_lookup: "word \<in> set (index_lookup (index_add idx code word) code)"
  by (auto simp: index_add_def index_lookup_def Let_def split: option.splits)

lemma index_add_keeps:
  "w \<in> set (index_lookup idx k) \<Longrightarrow> w \<in> set (index_lookup (index_add idx code word) k)"
  by (cases "idx code") (auto simp: index_add_def index_lookup_def Let_def dom_def split: option.splits if_splits)

lemma index_cell_keeps:
  "w \<in> set (index_lookup idx k) \<Longrightarrow> w \<in> set (index_lookup (index_cell p idx v word) k)"
  by (simp add: index_cell_def index_add_keeps split: option.splits)

lemma index_cell_adds:
  "int_of_float p v = Some V \<Longrightarrow> word \<in> set (index_lookup (index_cell p idx v word) V)"
  by (cases v) (simp_all add: index_cell_def int_of_float_def index_add_lookup)

lemma index_cell_skip: "int_of_float p v = None \<Longrightarrow> index_cell p idx v word = idx"
  by (simp add: index_cell_def)

lemma index_rows_append:
  "index_rows str_upper p (xs @ ys) st = index_rows str_upper p ys (index_rows str_upper p xs st)"
  by (induction xs arbitrary: st) (simp_all add: Let_def)

lemma index_rows_L1_cong:
  "INDEX_L1 st = INDEX_L1 st' \<Longrightarrow> INDEX_L1 (index_rows str_upper p df st) = INDEX_L1 (index_rows str_upper p df st')"
proof (induction df arbitrary: st st')
  case Nil
  then show ?case by simp
next
  case (Cons r df)
  show ?case
  proof (cases "str_upper (text_str (row_word r)) = []")
    case True
    with Cons.IH[OF Cons.prems] show ?thesis by (simp add: Let_def)
  next
    case False
    have "INDEX_L1 (index_rows str_upper p df (st\<lparr>INDEX_L1 := index_cell p (INDEX_L1 st) (row_l1 r) (str_upper (text_str (row_word r))),
                    INDEX_L2C := index_cell p (INDEX_L2C st) (row_l2c r) (str_upper (text_str (row_word r)))\<rparr>))
        = INDEX_L1 (index_rows str_upper p df (st'\<lparr>INDEX_L1 := index_cell p (INDEX_L1 st') (row_l1 r) (str_upper (text_str (row_word r))),
                    INDEX_L2C := index_cell p (INDEX_L2C st') (row_l2c r) (str_upper (text_str (row_word r)))\<rparr>))"
      by (rule Cons.IH) (simp add: Cons.prems)
    with False show ?thesis by (simp add: Let_def)
  qed
qed

lemma index_rows_L2C_cong:
  "INDEX_L2C st = INDEX_L2C st' \<Longrightarrow> INDEX_L2C (index_rows str_upper p df st) = INDEX_L2C (index_rows str_upper p df st')"
proof (induction df arbitrary: st st')
  case Nil
  then show ?case by simp
next
  case (Cons r df)
  show ?case
  proof (cases "str_upper (text_str (row_word r)) = []")
    case True
    with Cons.IH[OF Cons.prems] show ?thesis by (simp add: Let_def)
  next
    case False
    have "INDEX_L2C (index_rows str_upper p df (st\<lparr>INDEX_L1 := index_cell p (INDEX_L1 st) (row_l1 r) (str_upper (text_str (row_word r))),
                    INDEX_L2C := index_cell p (INDEX_L2C st) (row_l2c r) (str_upper (text_str (row_word r)))\<rparr>))
        = INDEX_L2C (index_rows str_upper p df (st'\<lparr>INDEX_L1 := index_cell p (INDEX_L1 st') (row_l1 r) (str_upper (text_str (row_word r))),
                    INDEX_L2C := index_cell p (INDEX_L2C st') (row_l2c r) (str_upper (text_str (row_word r)))\<rparr>))"
      by (rule Cons.IH) (simp add: Cons.prems)
    with False show ?thesis by (simp add: Let_def)
  qed
qed

lemma index_rows_keeps_L1:
  "w \<in> set (index_lookup (INDEX_L1 st) k) \<Longrightarrow>
     w \<in> set (index_lookup (INDEX_L1 (index_rows str_upper p df st)) k)"
  by (induction df arbitrary: st) (simp_all add: Let_def index_cell_keeps)

lemma index_rows_keeps_L2C:
  "w \<in> set (index_lookup (INDEX_L2C st) k) \<Longrightarrow>
     w \<in> set (index_lookup (INDEX_L2C (index_rows str_upper p df st)) k)"
  by (induction df arbitrary: st) (simp_all add: Let_def index_cell_keeps)

lemma index_rows_member_L1:
  assumes "r \<in> set df" and "str_upper (text_str (row_word r)) \<noteq> []"
    and "int_of_float p (row_l1 r) = Some V"
  shows "str_upper (text_str (row_word r)) \<in> set (index_lookup (INDEX_L1 (index_rows str_upper p df st)) V)"
  using assms(1)
proof (induction df arbitrary: st)
  case Nil
  then show ?case by simp
next
  case (Cons a df)
  show ?case
  proof (cases "a = r")
    case True
    with assms(2,3) show ?thesis
      by (simp add: Let_def index_rows_keeps_L1 index_cell_adds)
  next
    case False
    with Cons show ?thesis by (simp add: Let_def)
  qed
qed

lemma index_rows_member_L2C:
  assumes "r \<in> set df" and "str_upper (text_str (row_word r)) \<noteq> []"
    and "int_of_float p (row_l2c r) = Some V"
  shows "str_upper (text_str (row_word r)) \<in> set (index_lookup (INDEX_L2C (index_rows str_upper p df st)) V)"
  using assms(1)
proof (induction df arbitrary: st)
  case Nil
  then show ?case by simp
next
  case (Cons a df)
  show ?case
  proof (cases "a = r")
    case True
    with assms(2,3) show ?thesis
      by (simp add: Let_def index_rows_keeps_L2C index_cell_adds)
  next
    case False
    with Cons show ?thesis by (simp add: Let_def)
  qed
qed

lemma index_rows_skip_L1:
  assumes "int_of_float p (row_l1 r) = None"
  shows "INDEX_L1 (index_rows str_upper p (xs @ r # ys) st) = INDEX_L1 (index_rows str_upper p (xs @ ys) st)"
proof -
  have "INDEX_L1 (index_rows str_upper p [r] st') = INDEX_L1 st'" for st'
    using assms by (simp add: Let_def index_cell_skip)
  then have "INDEX_L1 (index_rows str_upper p ys (index_rows str_upper p [r] (index_rows str_upper p xs st)))
           = INDEX_L1 (index_rows str_upper p ys (index_rows str_upper p xs st))"
    by (rule index_rows_L1_cong)
  then show ?thesis
    using index_rows_append[of str_upper p xs "r # ys" st] index_rows_append[of str_upper p "[r]" ys]
      index_rows_append[of str_upper p xs ys st] by simp
qed

lemma index_rows_skip_L2C:
  assumes "int_of_float p (row_l2c r) = None"
  shows "INDEX_L2C (index_rows str_upper p (xs @ r # ys) st) = INDEX_L2C (index_rows str_upper p (xs @ ys) st)"
proof -
  have "INDEX_L2C (index_rows str_upper p [r] st') = INDEX_L2C st'" for st'
    using assms by (simp add: Let_def index_cell_skip)
  then have "INDEX_L2C (index_rows str_upper p ys (index_rows str_upper p [r] (index_rows str_upper p xs st)))
           = INDEX_L2C (index_rows str_upper p ys (index_rows str_upper p xs st))"
    by (rule index_rows_L2C_cong)
  then show ?thesis
    using index_rows_append[of str_upper p xs "r # ys" st] index_rows_append[of str_upper p "[r]" ys]
      index_rows_append[of str_upper p xs ys st] by simp
qed

lemma rebuild_L1:
  "INDEX_L1 (rebuild_indexes str_upper p df st)
     = INDEX_L1 (index_rows str_upper p df (st\<lparr>INDEX_L1 := Map.empty, INDEX_L2C := Map.empty\<rparr>))"
  by (cases df) (simp_all add: rebuild_indexes_def Let_def)

lemma rebuild_L2C:
  "INDEX_L2C (rebuild_indexes str_upper p df st)
     = INDEX_L2C (index_rows str_upper p df (st\<lparr>INDEX_L1 := Map.empty, INDEX_L2C := Map.empty\<rparr>))"
  by (cases df) (simp_all add: rebuild_indexes_def Let_def)

text \<open>
  Claim C7. After \<open>rebuild_indexes(df)\<close>, for every row of \<open>df\<close> whose upper-cased word
  (by \<open>str.upper()\<close>, whatever it does to the text) is not empty and whose \<open>l1\<close> cell
  converts to the integer \<open>V\<close>, the upper-cased word is among the words of \<open>INDEX_L1[V]\<close>, and likewise for \<open>l2c\<close> and \<open>INDEX_L2C\<close>. A row
  whose cell does not convert adds nothing to that dictionary: the dictionary is the one
  built from the frame without this row, so the other rows are indexed all the same.
\<close>

theorem C7_index_consistency:
  "(\<forall>r \<in> set df. str_upper (text_str (row_word r)) \<noteq> [] \<longrightarrow>
      (\<forall>V. int_of_float str_to_int (row_l1 r) = Some V \<longrightarrow>
         str_upper (text_str (row_word r))
           \<in> set (index_lookup (INDEX_L1 (rebuild_indexes str_upper str_to_int df st)) V))
      \<and> (\<forall>V. int_of_float str_to_int (row_l2c r) = Some V \<longrightarrow>
         str_upper (text_str (row_word r))
           \<in> set (index_lookup (INDEX_L2C (rebuild_indexes str_upper str_to_int df st)) V)))
   \<and> (int_of_float str_to_int (row_l1 bad) = None \<longrightarrow>
        INDEX_L1 (rebuild_indexes str_upper str_to_int (xs @ bad # ys) st)
          = INDEX_L1 (rebuild_indexes str_upper str_to_int (xs @ ys) st))
   \<and> (int_of_float str_to_int (row_l2c bad) = None \<longrightarrow>
        INDEX_L2C (rebuild_indexes str_upper str_to_int (xs @ bad # ys) st)
          = INDEX_L2C (rebuild_indexes str_upper str_to_int (xs @ ys) st))"
  by (simp add: rebuild_L1 rebuild_L2C index_rows_member_L1 index_rows_member_L2C
        index_rows_skip_L1 index_rows_skip_L2C)


text \<open>The claim for a frame of one row with the word "a", the float 7.5 in \<open>l1\<close> and an
  unreadable string in \<open>l2c\<close>: "A" is indexed under the code 7.\<close>

theorem C7_witness:
  "[65] \<in> set (index_lookup (INDEX_L1 (rebuild_indexes kryon_upper (\<lambda>s. None)
       [\<lparr>row_word = Text [97], row_sphere = TNaN, row_tone = TNaN, row_allowed = PNone,
         row_field = TNaN, row_role = TNaN, row_notes = TNaN, row_l1 = PFloat 7.5,
         row_l2c = PStr [120], row_w = PNone, row_C = PNone, row_Hm = PNone, row_Z = PNone\<rparr>]
       \<lparr>INDEX_L1 = Map.empty, INDEX_L2C = Map.empty, INDEX_READY = False\<rparr>)) 7)"
  using C7_index_consistency[where df =
       "[\<lparr>row_word = Text [97], row_sphere = TNaN, row_tone = TNaN, row_allowed = PNone,
         row_field = TNaN, row_role = TNaN, row_notes = TNaN, row_l1 = PFloat 7.5,
         row_l2c = PStr [120], row_w = PNone, row_C = PNone, row_Hm = PNone, row_Z = PNone\<rparr>]"
       and str_upper = kryon_upper and str_to_int = "\<lambda>s. None"
       and st = "\<lparr>INDEX_L1 = Map.empty, INDEX_L2C = Map.empty, INDEX_READY = False\<rparr>"]
  by (simp add: kryon_upper_def kryon_upper_char_def text_str_def int_of_float_def)

section \<open>Deduplication recomputes and may leave duplicates\<close>

lemma normalize_Nil: "normalize [] = []"
  by (simp add: normalize_def kryon_upper_def)

lemma force_recalc_row_derived:
  assumes "force_recalc_row cfg word sphere tone allowed notes None None fld role = Inr row"
  shows "row_word row = Text word \<and> pipeline_on_word cfg word = Inr (derived_cells row)"
proof -
  obtain no l1 where c1: "calc_l1_from_string word = (no, l1)"
    by (cases "calc_l1_from_string word")
  show ?thesis
  proof (cases "calc_l2c_from_l1 l1")
    case (Inl e)
    with assms c1 show ?thesis
      by (simp add: force_recalc_row_def Let_def and_then_Inl)
  next
    case (Inr t)
    then obtain l2c_opt words glued oor where
      c2: "calc_l2c_from_l1 l1 = Inr (l2c_opt, words, glued, oor)" by (cases t) auto
    show ?thesis
    proof (cases "l2c_opt = None \<or> oor")
      case True
      with assms c1 c2 show ?thesis
        by (auto simp: force_recalc_row_def pipeline_on_word_def derived_cells_def Let_def
              and_then_Inr split: option.splits)
    next
      case False
      then obtain l2c where l: "l2c_opt = Some l2c" "\<not> oor" by auto
      show ?thesis
      proof (cases "metrics cfg l1 l2c")
        case (Inl e)
        with assms c1 c2 l show ?thesis
          by (simp add: force_recalc_row_def Let_def and_then_Inr and_then_Inl)
      next
        case (Inr m)
        then obtain w C Hm Z where m: "metrics cfg l1 l2c = Inr (w, C, Hm, Z)"
          by (cases m) auto
        with assms c1 c2 l show ?thesis
          by (auto simp: force_recalc_row_def pipeline_on_word_def derived_cells_def Let_def
                and_then_Inr)
      qed
    qed
  qed
qed

lemma force_recalc_row_returns:
  assumes "sigma_Z cfg \<noteq> 0" and "normalize word \<noteq> []"
  shows "\<exists>row. force_recalc_row cfg word sphere tone allowed notes None None fld role = Inr row"
proof -
  obtain no l1 where c1: "calc_l1_from_string word = (no, l1)"
    by (cases "calc_l1_from_string word")
  with calc_l1_nonzero[OF assms(2)] have l1: "1 \<le> l1" by simp
  show ?thesis
  proof (cases "l1 \<le> 999999")
    case True
    from l1 have "0 \<le> l1" by simp
    from calc_l2c_in_range[OF this True] obtain l2c words glued where
      c2: "calc_l2c_from_l1 l1 = Inr (Some l2c, Some words, Some glued, False)" and r: "1 \<le> l2c"
      by blast
    from metrics_returns[of l1 l2c cfg] l1 r assms(1) obtain w C Hm Z where
      m: "metrics cfg l1 l2c = Inr (w, C, Hm, Z)" by auto
    from c1 c2 m show ?thesis
      by (simp add: force_recalc_row_def Let_def and_then_Inr)
  next
    case False
    then have "calc_l2c_from_l1 l1 = Inr (None, None, None, True)"
      by (simp add: calc_l2c_out_of_range)
    with c1 show ?thesis
      by (simp add: force_recalc_row_def Let_def and_then_Inr)
  qed
qed

lemma dedup_group_derived:
  assumes "dedup_group cfg key grp = Inr (Some row)"
  shows "\<exists>word. row_word row = Text word \<and> normalize word = word
           \<and> pipeline_on_word cfg word = Inr (derived_cells row)"
proof -
  obtain word sphere tone where k: "key = (word, sphere, tone)" by (cases key) auto
  define word_norm where "word_norm = (if word \<noteq> [] then normalize (kryon_upper (py_strip word)) else [])"
  have n: "normalize word_norm = word_norm" by (simp add: word_norm_def normalize_idem normalize_Nil)
  from assms obtain sp tn al nt fl rl where
    "force_recalc_row cfg word_norm sp tn al nt None None fl rl = Inr row"
    unfolding dedup_group_def k prod.case Let_def word_norm_def[symmetric]
    by (auto simp: and_then_def split: if_splits sum.splits)
  from force_recalc_row_derived[OF this] n show ?thesis by blast
qed

lemma and_then_returns:
  "\<exists>x. m = Inr x \<Longrightarrow> \<exists>res. and_then m (\<lambda>row. Inr (Some row)) = Inr res"
  by (auto simp: and_then_Inr)

lemma dedup_group_returns:
  assumes "sigma_Z cfg \<noteq> 0"
  shows "\<exists>res. dedup_group cfg key grp = Inr res"
proof -
  obtain word sphere tone where k: "key = (word, sphere, tone)" by (cases key) auto
  define word_norm where "word_norm = (if word \<noteq> [] then normalize (kryon_upper (py_strip word)) else [])"
  have n: "normalize word_norm = word_norm" by (simp add: word_norm_def normalize_idem normalize_Nil)
  show ?thesis
  proof (cases "word_norm = []")
    case True
    then show ?thesis
      unfolding dedup_group_def k prod.case Let_def word_norm_def[symmetric] by simp
  next
    case False
    with n have nn: "normalize word_norm \<noteq> []" by simp
    have "\<exists>res. and_then (force_recalc_row cfg word_norm sp tn al nt None None fl rl)
                   (\<lambda>row. Inr (Some row)) = Inr res" for sp tn al nt fl rl
      by (rule and_then_returns) (rule force_recalc_row_returns[OF assms nn])
    then show ?thesis
      unfolding dedup_group_def k prod.case Let_def word_norm_def[symmetric] using False by simp
  qed
qed

lemma dedup_loop_invariant:
  assumes "sigma_Z cfg \<noteq> 0"
    and "\<And>key grp row. dedup_group cfg key grp = Inr (Some row) \<Longrightarrow> P row"
  shows "\<forall>r \<in> set acc. P r \<Longrightarrow>
         \<exists>out. dedup_loop cfg groups acc = Inr out \<and> (\<forall>r \<in> set out. P r)"
proof (induction groups arbitrary: acc)
  case Nil
  then show ?case by simp
next
  case (Cons g groups)
  obtain key grp where g: "g = (key, grp)" by (cases g) auto
  from dedup_group_returns[OF assms(1), of key grp] obtain res where
    r: "dedup_group cfg key grp = Inr res" by blast
  show ?case
  proof (cases res)
    case None
    with r g Cons show ?thesis by (simp add: and_then_Inr)
  next
    case (Some row)
    with r assms(2) have "P row" by blast
    with Cons.prems have "\<forall>r \<in> set (acc @ [row]). P r" by simp
    from Cons.IH[OF this] r g Some show ?thesis by (simp add: and_then_Inr)
  qed
qed

lemma row_key_clear: "row_key (clear_derived r) = row_key r"
  by (simp add: row_key_def clear_derived_def split: text_cell.splits)

lemma groupby_clear:
  "groupby (map clear_derived df) = map (\<lambda>(k, g). (k, map clear_derived g)) (groupby df)"
  by (simp add: groupby_def map_filter_def filter_map comp_def row_key_clear)

lemma clear_columns:
  "map (\<lambda>r. parse_bool (row_allowed r)) (map clear_derived grp) = map (\<lambda>r. parse_bool (row_allowed r)) grp"
  "map row_field (map clear_derived grp) = map row_field grp"
  "map row_role (map clear_derived grp) = map row_role grp"
  "map row_notes (map clear_derived grp) = map row_notes grp"
  by (simp_all add: clear_derived_def)

lemma dedup_group_clear: "dedup_group cfg key (map clear_derived grp) = dedup_group cfg key grp"
  unfolding dedup_group_def clear_columns ..

lemma dedup_loop_clear:
  "dedup_loop cfg (map (\<lambda>(k, g). (k, map clear_derived g)) gs) acc = dedup_loop cfg gs acc"
  by (induction gs arbitrary: acc) (auto simp: dedup_group_clear)

lemma soft_dedup_clear: "soft_dedup cfg (map clear_derived df) = soft_dedup cfg df"
  by (simp add: soft_dedup_def groupby_clear dedup_loop_clear)

lemma svet_facts:
  "normalize s_svet = s_svet" "normalize s_svet_hyphen = s_svet"
  "py_strip s_svet = s_svet" "py_strip s_svet_hyphen = s_svet_hyphen"
  "kryon_upper s_svet = s_svet" "kryon_upper s_svet_hyphen = s_svet_hyphen"
  "py_strip s_priroda = s_priroda" "py_strip s_neutral = s_neutral"
  "s_svet \<noteq> []" "s_svet_hyphen \<noteq> []" "s_priroda \<noteq> []" "s_neutral \<noteq> []"
  "kryon_sum s_svet = 48" "s_svet < s_svet_hyphen"
  by (simp_all add: normalize_def kryon_upper_def kryon_upper_char_def in_alphabet_def py_strip_def
        is_space_def s_svet_def s_svet_hyphen_def s_priroda_def s_neutral_def
        kryon_sum_def kryon_get_def KRYON_MAP_def)

lemma py_strip_Nil: "py_strip [] = []"
  by (simp add: py_strip_def)

lemma group_svet:
  "dedup_group cfg (s_svet, s_priroda, s_neutral) [library_row w] =
     and_then (force_recalc_row cfg s_svet s_priroda s_neutral (PBool True) (Text []) None None None None)
       (\<lambda>row. Inr (Some row))"
  by (simp add: dedup_group_def svet_facts Let_def library_row_def parse_bool_def uniq_notes_def
        cell_stripped_def text_isna_def text_str_def py_strip_Nil)

lemma group_svet_hyphen:
  "dedup_group cfg (s_svet_hyphen, s_priroda, s_neutral) [library_row w] =
     and_then (force_recalc_row cfg s_svet s_priroda s_neutral (PBool True) (Text []) None None None None)
       (\<lambda>row. Inr (Some row))"
  by (simp add: dedup_group_def svet_facts Let_def library_row_def parse_bool_def uniq_notes_def
        cell_stripped_def text_isna_def text_str_def py_strip_Nil)

lemma groupby_two_spellings:
  "groupby two_spellings =
     [((s_svet, s_priroda, s_neutral), [library_row s_svet]),
      ((s_svet_hyphen, s_priroda, s_neutral), [library_row s_svet_hyphen])]"
proof -
  have k: "row_key (library_row w) = Some (w, s_priroda, s_neutral)" for w
    by (simp add: row_key_def library_row_def)
  have ne: "s_svet \<noteq> s_svet_hyphen" by (simp add: s_svet_def s_svet_hyphen_def)
  have le: "(s_svet, s_priroda, s_neutral) \<le> (s_svet_hyphen, s_priroda, s_neutral)"
    using svet_facts(14) by (simp add: less_eq_prod_def)
  have "sort [(s_svet, s_priroda, s_neutral), (s_svet_hyphen, s_priroda, s_neutral)]
        = [(s_svet, s_priroda, s_neutral), (s_svet_hyphen, s_priroda, s_neutral)]"
    using le by (simp add: sort_key_def)
  then show ?thesis
    using ne by (simp add: groupby_def two_spellings_def map_filter_def k)
qed


lemma force_recalc_row_full:
  assumes "sigma_Z cfg \<noteq> 0" and "normalize word \<noteq> []"
    and "kryon_sum (normalize word) \<le> 999999"
  shows "\<exists>l2c w C Hm Z.
     force_recalc_row cfg word sp tn al (Text nt) None None fl rl =
       Inr \<lparr>row_word = Text word, row_sphere = Text sp, row_tone = Text tn,
            row_allowed = PBool (parse_bool al),
            row_field = Text (py_strip (case fl of None \<Rightarrow> [] | Some f \<Rightarrow> f)),
            row_role = Text (py_strip (case rl of None \<Rightarrow> [] | Some f \<Rightarrow> f)),
            row_notes = Text (if py_lower (py_strip nt) = s_nan then [] else py_strip nt),
            row_l1 = PInt (kryon_sum (normalize word)), row_l2c = PInt l2c, row_w = PFloat w,
            row_C = PFloat C, row_Hm = PFloat Hm, row_Z = PFloat Z\<rparr>"
proof -
  define l1 where "l1 = kryon_sum (normalize word)"
  have c1: "calc_l1_from_string word = (Some (normalize word), l1)"
    using assms(2) by (simp add: calc_l1_from_string_def l1_def Let_def)
  have l1r: "1 \<le> l1" "l1 \<le> 999999"
    using calc_l1_nonzero[OF assms(2)] c1 assms(3) by (simp_all add: l1_def)
  then have "0 \<le> l1" by simp
  from calc_l2c_in_range[OF this l1r(2)] obtain l2c words glued where
    c2: "calc_l2c_from_l1 l1 = Inr (Some l2c, Some words, Some glued, False)" and r: "1 \<le> l2c"
    by blast
  from metrics_returns[of l1 l2c cfg] l1r r assms(1) obtain w C Hm Z where
    m: "metrics cfg l1 l2c = Inr (w, C, Hm, Z)" by auto
  from c1 c2 m show ?thesis
    by (simp add: force_recalc_row_def Let_def and_then_Inr text_str_def l1_def[symmetric])
qed

lemma dedup_two_spellings:
  assumes "sigma_Z cfg \<noteq> 0"
  shows "\<exists>R. soft_dedup cfg two_spellings = Inr [R, R] \<and> soft_dedup cfg [R, R] = Inr [R]"
proof -
  have l: "py_lower [] \<noteq> s_nan" by (simp add: py_lower_def s_nan_def)
  from force_recalc_row_full[OF assms, of s_svet s_priroda s_neutral "PBool True" "[]" None None]
  obtain l2c w C Hm Z where
    F: "force_recalc_row cfg s_svet s_priroda s_neutral (PBool True) (Text []) None None None None
        = Inr \<lparr>row_word = Text s_svet, row_sphere = Text s_priroda, row_tone = Text s_neutral,
            row_allowed = PBool True, row_field = Text [], row_role = Text [],
            row_notes = Text [], row_l1 = PInt 48, row_l2c = PInt l2c, row_w = PFloat w,
            row_C = PFloat C, row_Hm = PFloat Hm, row_Z = PFloat Z\<rparr>"
    using l by (auto simp: svet_facts py_strip_Nil parse_bool_def)
  define R where "R = \<lparr>row_word = Text s_svet, row_sphere = Text s_priroda, row_tone = Text s_neutral,
            row_allowed = PBool True, row_field = Text [], row_role = Text [],
            row_notes = Text [], row_l1 = PInt 48, row_l2c = PInt l2c, row_w = PFloat w,
            row_C = PFloat C, row_Hm = PFloat Hm, row_Z = PFloat Z\<rparr>"
  have ne: "two_spellings \<noteq> []" by (simp add: two_spellings_def)
  have first: "soft_dedup cfg two_spellings = Inr [R, R]"
    using ne by (simp add: soft_dedup_def groupby_two_spellings group_svet group_svet_hyphen F
          and_then_Inr R_def[symmetric])
  have k: "row_key R = Some (s_svet, s_priroda, s_neutral)"
    by (simp add: row_key_def R_def)
  have g: "groupby [R, R] = [((s_svet, s_priroda, s_neutral), [R, R])]"
    by (simp add: groupby_def map_filter_def k sort_key_def)
  have d: "dedup_group cfg (s_svet, s_priroda, s_neutral) [R, R] =
     and_then (force_recalc_row cfg s_svet s_priroda s_neutral (PBool True) (Text []) None None None None)
       (\<lambda>row. Inr (Some row))"
    by (simp add: dedup_group_def svet_facts Let_def R_def parse_bool_def uniq_notes_def
        cell_stripped_def text_isna_def text_str_def py_strip_Nil)
  have second: "soft_dedup cfg [R, R] = Inr [R]"
    by (simp add: soft_dedup_def g d F and_then_Inr R_def[symmetric])
  from first second show ?thesis by blast
qed

lemma dedup_loop_rows:
  assumes "\<And>key grp row. dedup_group cfg key grp = Inr (Some row) \<Longrightarrow> P row"
  shows "\<forall>r \<in> set acc. P r \<Longrightarrow> dedup_loop cfg groups acc = Inr out \<Longrightarrow> \<forall>r \<in> set out. P r"
proof (induction groups arbitrary: acc)
  case Nil
  then show ?case by simp
next
  case (Cons g groups)
  obtain key grp where g: "g = (key, grp)" by (cases g) auto
  show ?case
  proof (cases "dedup_group cfg key grp")
    case (Inl e)
    with Cons.prems(2) g show ?thesis by (simp add: and_then_Inl)
  next
    case (Inr res)
    show ?thesis
    proof (cases res)
      case None
      with Inr g Cons.prems(2) have "dedup_loop cfg groups acc = Inr out"
        by (simp add: and_then_Inr)
      from Cons.IH[OF Cons.prems(1) this] show ?thesis .
    next
      case (Some row)
      with Inr assms have "P row" by blast
      with Cons.prems(1) have p: "\<forall>r \<in> set (acc @ [row]). P r" by simp
      from Some Inr g Cons.prems(2) have "dedup_loop cfg groups (acc @ [row]) = Inr out"
        by (simp add: and_then_Inr)
      from Cons.IH[OF p this] show ?thesis .
    qed
  qed
qed

text \<open>
  Claim C3. In the frame returned by \<open>soft_dedup\<close> every row carries a normalized word,
  and its six derived cells \<open>l1\<close>, \<open>l2c\<close>, \<open>w\<close>, \<open>C\<close>, \<open>Hm\<close>, \<open>Z\<close> are the values
  that the encoding pipeline gives on this word alone. No derived value comes from an input
  row: two frames that differ only in their derived cells have the same result. The
  pass returns a frame whenever \<open>sigma_Z\<close> is not zero.
\<close>

theorem C3_derived_fields_recomputed:
  "(\<forall>out. soft_dedup cfg df = Inr out \<longrightarrow>
      (\<forall>r \<in> set out. \<exists>word. row_word r = Text word \<and> normalize word = word
             \<and> pipeline_on_word cfg word = Inr (derived_cells r)))
   \<and> (\<forall>df'. map clear_derived df' = map clear_derived df \<longrightarrow>
          soft_dedup cfg df' = soft_dedup cfg df)
   \<and> (sigma_Z cfg \<noteq> 0 \<longrightarrow> (\<exists>out. soft_dedup cfg df = Inr out))"
proof -
  define P where "P = (\<lambda>r. \<exists>word. row_word r = Text word \<and> normalize word = word
                  \<and> pipeline_on_word cfg word = Inr (derived_cells r))"
  have step: "\<And>key grp row. dedup_group cfg key grp = Inr (Some row) \<Longrightarrow> P row"
    unfolding P_def by (rule dedup_group_derived)
  have a: "\<forall>r \<in> set out. P r" if o: "soft_dedup cfg df = Inr out" for out
  proof (cases "df = []")
    case True
    with o show ?thesis by (simp add: soft_dedup_def)
  next
    case False
    with o have "dedup_loop cfg (groupby df) [] = Inr out" by (simp add: soft_dedup_def)
    from dedup_loop_rows[of cfg P "[]" "groupby df" out, OF step _ this] show ?thesis by simp
  qed
  have b: "soft_dedup cfg df' = soft_dedup cfg df"
    if "map clear_derived df' = map clear_derived df" for df'
    using soft_dedup_clear[of cfg df'] soft_dedup_clear[of cfg df] that by simp
  have c: "\<exists>out. soft_dedup cfg df = Inr out" if s: "sigma_Z cfg \<noteq> 0"
  proof -
    have "\<exists>out. dedup_loop cfg (groupby df) [] = Inr out \<and> (\<forall>r \<in> set out. True)"
      using dedup_loop_invariant[of cfg "\<lambda>r. True" "[]" "groupby df", OF s] by simp
    then show ?thesis by (cases "df = []") (auto simp: soft_dedup_def)
  qed
  from a b c show ?thesis unfolding P_def by blast
qed

text \<open>The claim for the frame of the two spellings, whose result has two rows.\<close>

theorem C3_witness:
  "\<exists>out. soft_dedup DEFAULT_CONFIG two_spellings = Inr out \<and> length out = 2
           \<and> (\<forall>r \<in> set out. \<exists>word. row_word r = Text word \<and> normalize word = word
                  \<and> pipeline_on_word DEFAULT_CONFIG word = Inr (derived_cells r))"
proof -
  have s: "sigma_Z DEFAULT_CONFIG \<noteq> 0" by (simp add: DEFAULT_CONFIG_def)
  from dedup_two_spellings[OF s] obtain R where
    "soft_dedup DEFAULT_CONFIG two_spellings = Inr [R, R]" by blast
  with C3_derived_fields_recomputed[of DEFAULT_CONFIG two_spellings] show ?thesis by auto
qed

text \<open>
  Claim C4 at the frame of the two spellings: the first pass groups the raw words SVET
  and "SVET-" apart and normalizes each group to the same row \<open>R\<close>, so its result holds
  \<open>R\<close> twice; the second pass merges the two, so deduplicating twice differs from
  deduplicating once.
\<close>

theorem C4_dedup_twice_differs:
  "and_then (soft_dedup DEFAULT_CONFIG two_spellings) (soft_dedup DEFAULT_CONFIG)
     \<noteq> soft_dedup DEFAULT_CONFIG two_spellings
   \<and> (\<exists>R. soft_dedup DEFAULT_CONFIG two_spellings = Inr [R, R]
          \<and> and_then (soft_dedup DEFAULT_CONFIG two_spellings) (soft_dedup DEFAULT_CONFIG) = Inr [R])"
proof -
  have s: "sigma_Z DEFAULT_CONFIG \<noteq> 0" by (simp add: DEFAULT_CONFIG_def)
  from dedup_two_spellings[OF s] obtain R where
    R: "soft_dedup DEFAULT_CONFIG two_spellings = Inr [R, R]"
       "soft_dedup DEFAULT_CONFIG [R, R] = Inr [R]" by blast
  then have "and_then (soft_dedup DEFAULT_CONFIG two_spellings) (soft_dedup DEFAULT_CONFIG) = Inr [R]"
    by (simp add: and_then_Inr)
  with R(1) show ?thesis by auto
qed

end
